theory Spec2Isabelle
  imports Main
begin

section \<open>Lexer (lexer.py)\<close>

text \<open>
  Source text is a \<^typ>\<open>string\<close>; a \<^typ>\<open>char\<close> stands for the code point of the
  same number, so the model covers source text over the code points 0 to 255.  The
  classification functions give what Python's \<^verbatim>\<open>str.isspace\<close>, \<^verbatim>\<open>str.isdigit\<close>,
  \<^verbatim>\<open>str.isalpha\<close>, \<^verbatim>\<open>str.isalnum\<close> and \<^verbatim>\<open>str.lower\<close> return on these code
  points.
\<close>

datatype TokenType =
    PROGRAM | VAR | BEGIN | END | INTEGER | REAL | BOOLEAN | IF | THEN | ELSE
  | WHILE | DO | READ | WRITE | DIV | MOD
  | ID | NUM
  | PLUS | MINUS | MULTIPLY | DIVIDE | ASSIGN | EQUAL | NOT_EQUAL | LESS | GREATER
  | LESS_EQUAL | GREATER_EQUAL
  | LPAREN | RPAREN | SEMICOLON | COLON | COMMA | DOT
  | EOF

record Token =
  ttype :: TokenType
  tvalue :: string
  tline :: nat
  tcolumn :: nat

record LexerError =
  lmessage :: string
  lline :: nat
  lcolumn :: nat

record Lexer =
  source :: string
  pos :: nat
  line :: nat
  column :: nat
  tokens :: "Token list"

definition isspace :: "char \<Rightarrow> bool" where
  "isspace c = (let n = (of_char c :: nat) in
     (9 \<le> n \<and> n \<le> 13) \<or> (28 \<le> n \<and> n \<le> 32) \<or> n = 133 \<or> n = 160)"

definition isdigit :: "char \<Rightarrow> bool" where
  "isdigit c = (let n = (of_char c :: nat) in
     (48 \<le> n \<and> n \<le> 57) \<or> n = 178 \<or> n = 179 \<or> n = 185)"

definition isalpha :: "char \<Rightarrow> bool" where
  "isalpha c = (let n = (of_char c :: nat) in
     (65 \<le> n \<and> n \<le> 90) \<or> (97 \<le> n \<and> n \<le> 122) \<or> n = 170 \<or> n = 181 \<or> n = 186
     \<or> (192 \<le> n \<and> n \<le> 214) \<or> (216 \<le> n \<and> n \<le> 246) \<or> (248 \<le> n \<and> n \<le> 255))"

definition isalnum :: "char \<Rightarrow> bool" where
  "isalnum c = (let n = (of_char c :: nat) in
     isalpha c \<or> isdigit c \<or> (188 \<le> n \<and> n \<le> 190))"

definition lower_char :: "char \<Rightarrow> char" where
  "lower_char c = (let n = (of_char c :: nat) in
     if (65 \<le> n \<and> n \<le> 90) \<or> (192 \<le> n \<and> n \<le> 222 \<and> n \<noteq> 215)
     then char_of (n + 32) else c)"

definition lower :: "string \<Rightarrow> string" where
  "lower s = map lower_char s"

definition KEYWORDS :: "(string \<times> TokenType) list" where
  "KEYWORDS =
    [(''program'', PROGRAM), (''var'', VAR), (''begin'', BEGIN), (''end'', END),
     (''integer'', INTEGER), (''real'', REAL), (''boolean'', BOOLEAN), (''if'', IF),
     (''then'', THEN), (''else'', ELSE), (''while'', WHILE), (''do'', DO),
     (''read'', READ), (''write'', WRITE), (''div'', DIV), (''mod'', MOD)]"

definition Lexer_init :: "string \<Rightarrow> Lexer" where
  "Lexer_init src = \<lparr>source = src, pos = 0, line = 1, column = 1, tokens = []\<rparr>"

definition current_char :: "Lexer \<Rightarrow> char option" where
  "current_char s = (if pos s \<ge> length (source s) then None else Some (source s ! pos s))"

definition peek :: "Lexer \<Rightarrow> nat \<Rightarrow> char option" where
  "peek s offset = (let peek_pos = pos s + offset in
     if peek_pos \<ge> length (source s) then None else Some (source s ! peek_pos))"

text \<open>\<^verbatim>\<open>advance\<close> returns the character it leaves together with the new state.\<close>

definition advance :: "Lexer \<Rightarrow> char option \<times> Lexer" where
  "advance s = (let ch = current_char s; s1 = s\<lparr>pos := pos s + 1\<rparr> in
     if ch = Some (CHR 0x0A) then (ch, s1\<lparr>line := line s1 + 1, column := 1\<rparr>)
     else (ch, s1\<lparr>column := column s1 + 1\<rparr>))"

function skip_whitespace :: "Lexer \<Rightarrow> Lexer" where
  "skip_whitespace s =
     (case current_char s of
        Some c \<Rightarrow> if isspace c then skip_whitespace (snd (advance s)) else s
      | None \<Rightarrow> s)"
  by pat_completeness auto
termination
  by (relation "measure (\<lambda>s. length (source s) - pos s)")
     (auto simp: advance_def current_char_def Let_def split: if_splits)

text \<open>The first loop of \<^verbatim>\<open>skip_comment\<close>: up to the closing brace or the end.\<close>

function skip_to_brace :: "Lexer \<Rightarrow> Lexer" where
  "skip_to_brace s =
     (case current_char s of
        Some c \<Rightarrow> if c \<noteq> CHR ''}'' then skip_to_brace (snd (advance s)) else s
      | None \<Rightarrow> s)"
  by pat_completeness auto
termination
  by (relation "measure (\<lambda>s. length (source s) - pos s)")
     (auto simp: advance_def current_char_def Let_def split: if_splits)

text \<open>The second loop of \<^verbatim>\<open>skip_comment\<close>: up to and over the closing star and parenthesis,
  or to the end.\<close>

function skip_to_star_paren :: "Lexer \<Rightarrow> Lexer" where
  "skip_to_star_paren s =
     (case current_char s of
        Some c \<Rightarrow>
          if c = CHR ''*'' \<and> peek s 1 = Some (CHR '')'')
          then snd (advance (snd (advance s)))
          else skip_to_star_paren (snd (advance s))
      | None \<Rightarrow> s)"
  by pat_completeness auto
termination
  by (relation "measure (\<lambda>s. length (source s) - pos s)")
     (auto simp: advance_def current_char_def Let_def split: if_splits)

definition skip_comment :: "Lexer \<Rightarrow> Lexer" where
  "skip_comment s =
     (if current_char s = Some (CHR ''{'') then
        (let s1 = snd (advance s); s2 = skip_to_brace s1 in
         if current_char s2 = Some (CHR ''}'') then snd (advance s2) else s2)
      else if current_char s = Some (CHR ''('') \<and> peek s 1 = Some (CHR ''*'') then
        skip_to_star_paren (snd (advance (snd (advance s))))
      else s)"

text \<open>The digit loop, which \<^verbatim>\<open>read_number\<close> runs twice; \<open>result\<close> is the lexeme so far.\<close>

function read_digits :: "Lexer \<Rightarrow> string \<Rightarrow> Lexer \<times> string" where
  "read_digits s result =
     (case current_char s of
        Some c \<Rightarrow> if isdigit c then read_digits (snd (advance s)) (result @ [c]) else (s, result)
      | None \<Rightarrow> (s, result))"
  by pat_completeness auto
termination
  by (relation "measure (\<lambda>(s, r). length (source s) - pos s)")
     (auto simp: advance_def current_char_def Let_def split: if_splits)

definition read_number :: "Lexer \<Rightarrow> Token \<times> Lexer" where
  "read_number s =
     (let start_line = line s; start_col = column s;
          (s1, result) = read_digits s [];
          (s2, result2) =
            (if current_char s1 = Some (CHR ''.'')
                \<and> (case peek s1 1 of Some d \<Rightarrow> isdigit d | None \<Rightarrow> False)
             then read_digits (snd (advance s1)) (result @ ''.'')
             else (s1, result))
      in (\<lparr>ttype = NUM, tvalue = result2, tline = start_line, tcolumn = start_col\<rparr>, s2))"

function read_ident_chars :: "Lexer \<Rightarrow> string \<Rightarrow> Lexer \<times> string" where
  "read_ident_chars s result =
     (case current_char s of
        Some c \<Rightarrow> if isalnum c \<or> c = CHR ''_''
                  then read_ident_chars (snd (advance s)) (result @ [c]) else (s, result)
      | None \<Rightarrow> (s, result))"
  by pat_completeness auto
termination
  by (relation "measure (\<lambda>(s, r). length (source s) - pos s)")
     (auto simp: advance_def current_char_def Let_def split: if_splits)

definition read_identifier :: "Lexer \<Rightarrow> Token \<times> Lexer" where
  "read_identifier s =
     (let start_line = line s; start_col = column s;
          (s1, result) = read_ident_chars s [];
          lower_result = lower result
      in case map_of KEYWORDS lower_result of
           Some k \<Rightarrow> (\<lparr>ttype = k, tvalue = result, tline = start_line, tcolumn = start_col\<rparr>, s1)
         | None \<Rightarrow> (\<lparr>ttype = ID, tvalue = result, tline = start_line, tcolumn = start_col\<rparr>, s1))"


declare skip_whitespace.simps [simp del] skip_to_brace.simps [simp del]
  skip_to_star_paren.simps [simp del] read_digits.simps [simp del]
  read_ident_chars.simps [simp del]

subsection \<open>The scanning loops keep the source and never move backwards\<close>

lemma current_char_Some: "current_char s = Some c \<Longrightarrow> pos s < length (source s)"
  by (simp add: current_char_def split: if_splits)

lemma advance_source [simp]: "source (snd (advance s)) = source s"
  by (simp add: advance_def Let_def)

lemma advance_pos [simp]: "pos (snd (advance s)) = pos s + 1"
  by (simp add: advance_def Let_def)

lemma advance_tokens [simp]: "tokens (snd (advance s)) = tokens s"
  by (simp add: advance_def Let_def)

lemma skip_whitespace_source [simp]: "source (skip_whitespace s) = source s"
  by (induction s rule: skip_whitespace.induct)
     (subst skip_whitespace.simps, simp split: option.splits)

lemma skip_whitespace_tokens [simp]: "tokens (skip_whitespace s) = tokens s"
  by (induction s rule: skip_whitespace.induct)
     (subst skip_whitespace.simps, simp split: option.splits)

lemma skip_whitespace_pos: "pos s \<le> pos (skip_whitespace s)"
  by (induction s rule: skip_whitespace.induct)
     (subst skip_whitespace.simps, fastforce split: option.splits)

lemma skip_whitespace_progress:
  "current_char s = Some c \<Longrightarrow> isspace c \<Longrightarrow> pos s < pos (skip_whitespace s)"
  using skip_whitespace_pos [of "snd (advance s)"]
  by (subst skip_whitespace.simps) simp

lemma skip_to_brace_source [simp]: "source (skip_to_brace s) = source s"
  by (induction s rule: skip_to_brace.induct)
     (subst skip_to_brace.simps, simp split: option.splits)

lemma skip_to_brace_tokens [simp]: "tokens (skip_to_brace s) = tokens s"
  by (induction s rule: skip_to_brace.induct)
     (subst skip_to_brace.simps, simp split: option.splits)

lemma skip_to_brace_pos: "pos s \<le> pos (skip_to_brace s)"
  by (induction s rule: skip_to_brace.induct)
     (subst skip_to_brace.simps, fastforce split: option.splits)

lemma skip_to_star_paren_source [simp]: "source (skip_to_star_paren s) = source s"
  by (induction s rule: skip_to_star_paren.induct)
     (subst skip_to_star_paren.simps, simp split: option.splits)

lemma skip_to_star_paren_tokens [simp]: "tokens (skip_to_star_paren s) = tokens s"
  by (induction s rule: skip_to_star_paren.induct)
     (subst skip_to_star_paren.simps, simp split: option.splits)

lemma skip_to_star_paren_pos: "pos s \<le> pos (skip_to_star_paren s)"
  by (induction s rule: skip_to_star_paren.induct)
     (subst skip_to_star_paren.simps, fastforce split: option.splits)

lemma skip_comment_source [simp]: "source (skip_comment s) = source s"
  by (simp add: skip_comment_def Let_def)

lemma skip_comment_tokens [simp]: "tokens (skip_comment s) = tokens s"
  by (simp add: skip_comment_def Let_def)

lemma skip_comment_progress:
  assumes "current_char s = Some c"
    and "c = CHR ''{'' \<or> (c = CHR ''('' \<and> peek s 1 = Some (CHR ''*''))"
  shows "pos s < pos (skip_comment s)"
  using assms skip_to_brace_pos [of "snd (advance s)"]
    skip_to_star_paren_pos [of "snd (advance (snd (advance s)))"]
  by (auto simp: skip_comment_def Let_def)

lemma read_digits_source [simp]: "source (fst (read_digits s r)) = source s"
  by (induction s r rule: read_digits.induct)
     (subst read_digits.simps, simp split: option.splits)

lemma read_digits_tokens [simp]: "tokens (fst (read_digits s r)) = tokens s"
  by (induction s r rule: read_digits.induct)
     (subst read_digits.simps, simp split: option.splits)

lemma read_digits_pos: "pos s \<le> pos (fst (read_digits s r))"
  by (induction s r rule: read_digits.induct)
     (subst read_digits.simps, fastforce split: option.splits)

lemma read_digits_progress:
  "current_char s = Some c \<Longrightarrow> isdigit c \<Longrightarrow> pos s < pos (fst (read_digits s r))"
  using read_digits_pos [of "snd (advance s)" "r @ [c]"]
  by (subst read_digits.simps) simp

lemma read_ident_chars_source [simp]: "source (fst (read_ident_chars s r)) = source s"
  by (induction s r rule: read_ident_chars.induct)
     (subst read_ident_chars.simps, simp split: option.splits)

lemma read_ident_chars_tokens [simp]: "tokens (fst (read_ident_chars s r)) = tokens s"
  by (induction s r rule: read_ident_chars.induct)
     (subst read_ident_chars.simps, simp split: option.splits)

lemma read_ident_chars_pos: "pos s \<le> pos (fst (read_ident_chars s r))"
  by (induction s r rule: read_ident_chars.induct)
     (subst read_ident_chars.simps, fastforce split: option.splits)

lemma read_ident_chars_progress:
  "current_char s = Some c \<Longrightarrow> isalnum c \<or> c = CHR ''_''
   \<Longrightarrow> pos s < pos (fst (read_ident_chars s r))"
  using read_ident_chars_pos [of "snd (advance s)" "r @ [c]"]
  by (subst read_ident_chars.simps) auto

lemma read_number_source [simp]: "source (snd (read_number s)) = source s"
  by (simp add: read_number_def Let_def split: prod.splits)
     (metis advance_source fst_conv read_digits_source)

lemma read_number_tokens [simp]: "tokens (snd (read_number s)) = tokens s"
  by (simp add: read_number_def Let_def split: prod.splits)
     (metis advance_tokens fst_conv read_digits_tokens)

lemma read_number_progress:
  assumes "current_char s = Some c" and "isdigit c"
  shows "pos s < pos (snd (read_number s))"
proof -
  obtain s1 r1 where s1: "read_digits s [] = (s1, r1)" by (cases "read_digits s []")
  have a: "pos s < pos s1" using read_digits_progress [OF assms, of "[]"] s1 by simp
  obtain s2 r2 where s2: "read_digits (snd (advance s1)) (r1 @ ''.'') = (s2, r2)"
    by (cases "read_digits (snd (advance s1)) (r1 @ ''.'')")
  have b: "pos s1 < pos s2"
    using read_digits_pos [of "snd (advance s1)" "r1 @ ''.''"] s2 by simp
  show ?thesis using a b s1 s2 by (simp add: read_number_def Let_def)
qed

lemma read_identifier_source [simp]: "source (snd (read_identifier s)) = source s"
  by (simp add: read_identifier_def Let_def split: prod.splits option.splits)
     (metis fst_conv read_ident_chars_source)

lemma read_identifier_tokens [simp]: "tokens (snd (read_identifier s)) = tokens s"
  by (simp add: read_identifier_def Let_def split: prod.splits option.splits)
     (metis fst_conv read_ident_chars_tokens)

lemma isalpha_isalnum: "isalpha c \<Longrightarrow> isalnum c"
  by (simp add: isalnum_def Let_def)

lemma read_identifier_progress:
  assumes "current_char s = Some c" and "isalpha c \<or> c = CHR ''_''"
  shows "pos s < pos (snd (read_identifier s))"
proof -
  obtain s1 r1 where s1: "read_ident_chars s [] = (s1, r1)" by (cases "read_ident_chars s []")
  have "isalnum c \<or> c = CHR ''_''" using assms(2) isalpha_isalnum by blast
  then have "pos s < pos s1" using read_ident_chars_progress [OF assms(1), of "[]"] s1 by simp
  then show ?thesis using s1 by (simp add: read_identifier_def Let_def split: option.splits)
qed


subsection \<open>tokenize\<close>

definition append_token :: "Lexer \<Rightarrow> TokenType \<Rightarrow> string \<Rightarrow> nat \<Rightarrow> nat \<Rightarrow> Lexer" where
  "append_token s ty v l c =
     s\<lparr>tokens := tokens s @ [\<lparr>ttype = ty, tvalue = v, tline = l, tcolumn = c\<rparr>]\<rparr>"

definition unexpected_character :: "char \<Rightarrow> string" where
  "unexpected_character c = ''Unexpected character: '' @ [CHR 0x27, c, CHR 0x27]"

text \<open>The \<^verbatim>\<open>while\<close> loop of \<^verbatim>\<open>tokenize\<close>; \<open>Inl\<close> is the raised \<^verbatim>\<open>LexerError\<close>.\<close>

function tokenize_loop :: "Lexer \<Rightarrow> LexerError + Lexer" where
  "tokenize_loop s =
     (case current_char s of
        None \<Rightarrow> Inr s
      | Some c \<Rightarrow>
          if isspace c then tokenize_loop (skip_whitespace s)
          else if c = CHR ''{'' \<or> (c = CHR ''('' \<and> peek s 1 = Some (CHR ''*''))
          then tokenize_loop (skip_comment s)
          else if isdigit c
          then tokenize_loop
                 (snd (read_number s)\<lparr>tokens := tokens s @ [fst (read_number s)]\<rparr>)
          else if isalpha c \<or> c = CHR ''_''
          then tokenize_loop
                 (snd (read_identifier s)\<lparr>tokens := tokens s @ [fst (read_identifier s)]\<rparr>)
          else if c = CHR '':'' \<and> peek s 1 = Some (CHR ''='')
          then tokenize_loop
                 (append_token (snd (advance (snd (advance s)))) ASSIGN '':='' (line s) (column s))
          else if c = CHR ''<'' \<and> peek s 1 = Some (CHR ''='')
          then tokenize_loop
                 (append_token (snd (advance (snd (advance s)))) LESS_EQUAL ''<='' (line s) (column s))
          else if c = CHR ''>'' \<and> peek s 1 = Some (CHR ''='')
          then tokenize_loop
                 (append_token (snd (advance (snd (advance s)))) GREATER_EQUAL ''>='' (line s) (column s))
          else if c = CHR ''<'' \<and> peek s 1 = Some (CHR ''>'')
          then tokenize_loop
                 (append_token (snd (advance (snd (advance s)))) NOT_EQUAL ''<>'' (line s) (column s))
          else if c = CHR ''+''
          then tokenize_loop (append_token (snd (advance s)) PLUS ''+'' (line s) (column s))
          else if c = CHR ''-''
          then tokenize_loop (append_token (snd (advance s)) MINUS ''-'' (line s) (column s))
          else if c = CHR ''*''
          then tokenize_loop (append_token (snd (advance s)) MULTIPLY ''*'' (line s) (column s))
          else if c = CHR ''/''
          then tokenize_loop (append_token (snd (advance s)) DIVIDE ''/'' (line s) (column s))
          else if c = CHR ''=''
          then tokenize_loop (append_token (snd (advance s)) EQUAL ''='' (line s) (column s))
          else if c = CHR ''<''
          then tokenize_loop (append_token (snd (advance s)) LESS ''<'' (line s) (column s))
          else if c = CHR ''>''
          then tokenize_loop (append_token (snd (advance s)) GREATER ''>'' (line s) (column s))
          else if c = CHR ''(''
          then tokenize_loop (append_token (snd (advance s)) LPAREN ''('' (line s) (column s))
          else if c = CHR '')''
          then tokenize_loop (append_token (snd (advance s)) RPAREN '')'' (line s) (column s))
          else if c = CHR '';''
          then tokenize_loop (append_token (snd (advance s)) SEMICOLON '';'' (line s) (column s))
          else if c = CHR '':''
          then tokenize_loop (append_token (snd (advance s)) COLON '':'' (line s) (column s))
          else if c = CHR '',''
          then tokenize_loop (append_token (snd (advance s)) COMMA '','' (line s) (column s))
          else if c = CHR ''.''
          then tokenize_loop (append_token (snd (advance s)) DOT ''.'' (line s) (column s))
          else Inl \<lparr>lmessage = unexpected_character c, lline = line s, lcolumn = column s\<rparr>)"
  by pat_completeness auto
termination
proof (relation "measure (\<lambda>s. length (source s) - pos s)", goal_cases)
  case 1
  show ?case by simp
next
  case (2 s c)
  then show ?case
    using skip_whitespace_progress [of s c] current_char_Some [of s c] by simp
next
  case (3 s c)
  then show ?case
    using skip_comment_progress [of s c] current_char_Some [of s c] by simp
next
  case (4 s c)
  then show ?case
    using read_number_progress [of s c] current_char_Some [of s c] by simp
next
  case (5 s c)
  then show ?case
    using read_identifier_progress [of s c] current_char_Some [of s c] by simp
qed (auto simp: append_token_def dest: current_char_Some)

declare tokenize_loop.simps [simp del]

text \<open>
  \<^verbatim>\<open>tokenize\<close> empties the token list, runs the loop and appends the end-of-input
  token at the position the scan stopped at.  \<open>tokenize_rest s\<close> is what \<^verbatim>\<open>tokenize\<close>
  returns once its loop stands in the state \<open>s\<close>.
\<close>

definition tokenize_rest :: "Lexer \<Rightarrow> LexerError + Token list" where
  "tokenize_rest s =
     (case tokenize_loop s of
        Inl e \<Rightarrow> Inl e
      | Inr s' \<Rightarrow> Inr (tokens s' @ [\<lparr>ttype = EOF, tvalue = ''$'', tline = line s', tcolumn = column s'\<rparr>]))"

definition tokenize :: "string \<Rightarrow> LexerError + Token list" where
  "tokenize src = tokenize_rest (Lexer_init src)"

subsection \<open>Running the lexer on a concrete text\<close>

lemma char_of_eval:
  "char_of (n::nat) = Char (odd n) (odd (n div 2)) (odd (n div 4)) (odd (n div 8))
     (odd (n div 16)) (odd (n div 32)) (odd (n div 64)) (odd (n div 128))"
  by (simp add: char_of_def bit_iff_odd)

lemmas lex_eval = tokenize_def tokenize_rest_def Lexer_init_def tokenize_loop.simps current_char_def peek_def
  advance_def Let_def skip_whitespace.simps skip_comment_def skip_to_brace.simps
  skip_to_star_paren.simps read_digits.simps read_number_def read_ident_chars.simps
  read_identifier_def lower_def lower_char_def KEYWORDS_def append_token_def
  isspace_def isdigit_def isalpha_def isalnum_def unexpected_character_def char_of_eval


section \<open>Grammar (grammar.py)\<close>

text \<open>
  Grammar symbols are strings.  \<^verbatim>\<open>EPSILON\<close> is the one-character string U+03B5, written
  here as the two bytes of its UTF-8 form; every other grammar symbol is ASCII, so
  equality of symbols is the same in the model and in the source.
\<close>

definition NONTERMINALS :: "string list" where
  "NONTERMINALS =
    [''Program'', ''Block'', ''Declarations'', ''DeclList'', ''DeclListP'', ''Decl'',
     ''IdList'', ''IdListP'', ''Type'', ''StmtList'', ''StmtListP'', ''Statement'',
     ''AssignStmt'', ''IfStmt'', ''ElsePart'', ''WhileStmt'', ''ReadStmt'', ''WriteStmt'',
     ''ExprList'', ''ExprListP'', ''BoolExpr'', ''RelOp'', ''Expression'', ''ExpressionP'',
     ''Term'', ''TermP'', ''Factor'']"

definition TERMINALS :: "string list" where
  "TERMINALS =
    [''program'', ''id'', '';'', ''.'', ''var'', ''begin'', ''end'', '':'', '','',
     ''integer'', ''real'', ''boolean'', '':='', ''if'', ''then'', ''else'', ''while'',
     ''do'', ''read'', ''write'', ''('', '')'', ''+'', ''-'', ''*'', ''/'', ''div'',
     ''mod'', ''<'', ''>'', ''<='', ''>='', ''='', ''<>'', ''num'', ''$'']"

definition EPSILON :: string where
  "EPSILON = [CHR 0xCE, CHR 0xB5]"

text \<open>Dictionaries are association lists read with \<^const>\<open>map_of\<close>; no key occurs twice.\<close>

definition PRODUCTIONS :: "(string \<times> string list list) list" where
  "PRODUCTIONS =
    [(''Program'',
       [[''program'', ''id'', '';'', ''Block'', ''.'']]),
     (''Block'',
       [[''Declarations'', ''begin'', ''StmtList'', ''end'']]),
     (''Declarations'',
       [[''var'', ''DeclList''], [EPSILON]]),
     (''DeclList'',
       [[''Decl'', ''DeclListP'']]),
     (''DeclListP'',
       [[''Decl'', ''DeclListP''], [EPSILON]]),
     (''Decl'',
       [[''IdList'', '':'', ''Type'', '';'']]),
     (''IdList'',
       [[''id'', ''IdListP'']]),
     (''IdListP'',
       [['','', ''id'', ''IdListP''], [EPSILON]]),
     (''Type'',
       [[''integer''], [''real''], [''boolean'']]),
     (''StmtList'',
       [[''Statement'', ''StmtListP'']]),
     (''StmtListP'',
       [['';'', ''Statement'', ''StmtListP''], [EPSILON]]),
     (''Statement'',
       [[''id'', '':='', ''Expression''], [''IfStmt''], [''WhileStmt''], [''ReadStmt''],
        [''WriteStmt''], [''begin'', ''StmtList'', ''end''], [EPSILON]]),
     (''AssignStmt'',
       [[''id'', '':='', ''Expression'']]),
     (''IfStmt'',
       [[''if'', ''BoolExpr'', ''then'', ''Statement'', ''ElsePart'']]),
     (''ElsePart'',
       [[''else'', ''Statement''], [EPSILON]]),
     (''WhileStmt'',
       [[''while'', ''BoolExpr'', ''do'', ''Statement'']]),
     (''ReadStmt'',
       [[''read'', ''('', ''IdList'', '')'']]),
     (''WriteStmt'',
       [[''write'', ''('', ''ExprList'', '')'']]),
     (''ExprList'',
       [[''Expression'', ''ExprListP'']]),
     (''ExprListP'',
       [['','', ''Expression'', ''ExprListP''], [EPSILON]]),
     (''BoolExpr'',
       [[''Expression'', ''RelOp'', ''Expression'']]),
     (''RelOp'',
       [[''<''], [''>''], [''<=''], [''>=''], [''=''], [''<>'']]),
     (''Expression'',
       [[''Term'', ''ExpressionP'']]),
     (''ExpressionP'',
       [[''+'', ''Term'', ''ExpressionP''], [''-'', ''Term'', ''ExpressionP''], [EPSILON]]),
     (''Term'',
       [[''Factor'', ''TermP'']]),
     (''TermP'',
       [[''*'', ''Factor'', ''TermP''], [''/'', ''Factor'', ''TermP''],
        [''div'', ''Factor'', ''TermP''], [''mod'', ''Factor'', ''TermP''], [EPSILON]]),
     (''Factor'',
       [[''('', ''Expression'', '')''], [''id''], [''num''], [''+'', ''Factor''],
        [''-'', ''Factor'']])]"

definition PARSE_TABLE :: "(string \<times> (string \<times> string list) list) list" where
  "PARSE_TABLE =
    [(''Program'',
       [(''program'', [''program'', ''id'', '';'', ''Block'', ''.''])]),
     (''Block'',
       [(''var'', [''Declarations'', ''begin'', ''StmtList'', ''end'']),
        (''begin'', [''Declarations'', ''begin'', ''StmtList'', ''end''])]),
     (''Declarations'',
       [(''var'', [''var'', ''DeclList'']),
        (''begin'', [EPSILON])]),
     (''DeclList'',
       [(''id'', [''Decl'', ''DeclListP''])]),
     (''DeclListP'',
       [(''id'', [''Decl'', ''DeclListP'']),
        (''begin'', [EPSILON])]),
     (''Decl'',
       [(''id'', [''IdList'', '':'', ''Type'', '';''])]),
     (''IdList'',
       [(''id'', [''id'', ''IdListP''])]),
     (''IdListP'',
       [('','', ['','', ''id'', ''IdListP'']),
        ('':'', [EPSILON]),
        ('')'', [EPSILON])]),
     (''Type'',
       [(''integer'', [''integer'']),
        (''real'', [''real'']),
        (''boolean'', [''boolean''])]),
     (''StmtList'',
       [(''id'', [''Statement'', ''StmtListP'']),
        (''if'', [''Statement'', ''StmtListP'']),
        (''while'', [''Statement'', ''StmtListP'']),
        (''read'', [''Statement'', ''StmtListP'']),
        (''write'', [''Statement'', ''StmtListP'']),
        (''begin'', [''Statement'', ''StmtListP'']),
        (''end'', [''Statement'', ''StmtListP''])]),
     (''StmtListP'',
       [('';'', ['';'', ''Statement'', ''StmtListP'']),
        (''end'', [EPSILON])]),
     (''Statement'',
       [(''id'', [''id'', '':='', ''Expression'']),
        (''if'', [''IfStmt'']),
        (''while'', [''WhileStmt'']),
        (''read'', [''ReadStmt'']),
        (''write'', [''WriteStmt'']),
        (''begin'', [''begin'', ''StmtList'', ''end'']),
        ('';'', [EPSILON]),
        (''end'', [EPSILON]),
        (''else'', [EPSILON])]),
     (''IfStmt'',
       [(''if'', [''if'', ''BoolExpr'', ''then'', ''Statement'', ''ElsePart''])]),
     (''ElsePart'',
       [(''else'', [''else'', ''Statement'']),
        ('';'', [EPSILON]),
        (''end'', [EPSILON])]),
     (''WhileStmt'',
       [(''while'', [''while'', ''BoolExpr'', ''do'', ''Statement''])]),
     (''ReadStmt'',
       [(''read'', [''read'', ''('', ''IdList'', '')''])]),
     (''WriteStmt'',
       [(''write'', [''write'', ''('', ''ExprList'', '')''])]),
     (''ExprList'',
       [(''('', [''Expression'', ''ExprListP'']),
        (''id'', [''Expression'', ''ExprListP'']),
        (''num'', [''Expression'', ''ExprListP'']),
        (''+'', [''Expression'', ''ExprListP'']),
        (''-'', [''Expression'', ''ExprListP''])]),
     (''ExprListP'',
       [('','', ['','', ''Expression'', ''ExprListP'']),
        ('')'', [EPSILON])]),
     (''BoolExpr'',
       [(''('', [''Expression'', ''RelOp'', ''Expression'']),
        (''id'', [''Expression'', ''RelOp'', ''Expression'']),
        (''num'', [''Expression'', ''RelOp'', ''Expression'']),
        (''+'', [''Expression'', ''RelOp'', ''Expression'']),
        (''-'', [''Expression'', ''RelOp'', ''Expression''])]),
     (''RelOp'',
       [(''<'', [''<'']),
        (''>'', [''>'']),
        (''<='', [''<='']),
        (''>='', [''>='']),
        (''='', [''='']),
        (''<>'', [''<>''])]),
     (''Expression'',
       [(''('', [''Term'', ''ExpressionP'']),
        (''id'', [''Term'', ''ExpressionP'']),
        (''num'', [''Term'', ''ExpressionP'']),
        (''+'', [''Term'', ''ExpressionP'']),
        (''-'', [''Term'', ''ExpressionP''])]),
     (''ExpressionP'',
       [(''+'', [''+'', ''Term'', ''ExpressionP'']),
        (''-'', [''-'', ''Term'', ''ExpressionP'']),
        ('')'', [EPSILON]),
        ('';'', [EPSILON]),
        ('','', [EPSILON]),
        (''then'', [EPSILON]),
        (''do'', [EPSILON]),
        (''end'', [EPSILON]),
        (''else'', [EPSILON]),
        (''<'', [EPSILON]),
        (''>'', [EPSILON]),
        (''<='', [EPSILON]),
        (''>='', [EPSILON]),
        (''='', [EPSILON]),
        (''<>'', [EPSILON])]),
     (''Term'',
       [(''('', [''Factor'', ''TermP'']),
        (''id'', [''Factor'', ''TermP'']),
        (''num'', [''Factor'', ''TermP'']),
        (''+'', [''Factor'', ''TermP'']),
        (''-'', [''Factor'', ''TermP''])]),
     (''TermP'',
       [(''*'', [''*'', ''Factor'', ''TermP'']),
        (''/'', [''/'', ''Factor'', ''TermP'']),
        (''div'', [''div'', ''Factor'', ''TermP'']),
        (''mod'', [''mod'', ''Factor'', ''TermP'']),
        (''+'', [EPSILON]),
        (''-'', [EPSILON]),
        ('')'', [EPSILON]),
        ('';'', [EPSILON]),
        ('','', [EPSILON]),
        (''then'', [EPSILON]),
        (''do'', [EPSILON]),
        (''end'', [EPSILON]),
        (''else'', [EPSILON]),
        (''<'', [EPSILON]),
        (''>'', [EPSILON]),
        (''<='', [EPSILON]),
        (''>='', [EPSILON]),
        (''='', [EPSILON]),
        (''<>'', [EPSILON])]),
     (''Factor'',
       [(''('', [''('', ''Expression'', '')'']),
        (''id'', [''id'']),
        (''num'', [''num'']),
        (''+'', [''+'', ''Factor'']),
        (''-'', [''-'', ''Factor''])])]"

definition TOKEN_TO_TERMINAL :: "(TokenType \<times> string) list" where
  "TOKEN_TO_TERMINAL =
    [(PROGRAM, ''program''), (VAR, ''var''), (BEGIN, ''begin''), (END, ''end''),
     (INTEGER, ''integer''), (REAL, ''real''), (BOOLEAN, ''boolean''), (IF, ''if''),
     (THEN, ''then''), (ELSE, ''else''), (WHILE, ''while''), (DO, ''do''),
     (READ, ''read''), (WRITE, ''write''), (DIV, ''div''), (MOD, ''mod''), (ID, ''id''),
     (NUM, ''num''), (PLUS, ''+''), (MINUS, ''-''), (MULTIPLY, ''*''), (DIVIDE, ''/''),
     (ASSIGN, '':=''), (EQUAL, ''=''), (NOT_EQUAL, ''<>''), (LESS, ''<''),
     (GREATER, ''>''), (LESS_EQUAL, ''<=''), (GREATER_EQUAL, ''>=''), (LPAREN, ''(''),
     (RPAREN, '')''), (SEMICOLON, '';''), (COLON, '':''), (COMMA, '',''), (DOT, ''.''),
     (EOF, ''$'')]"

definition is_terminal :: "string \<Rightarrow> bool" where
  "is_terminal symbol \<longleftrightarrow> symbol \<in> set TERMINALS \<or> symbol = EPSILON"

definition is_nonterminal :: "string \<Rightarrow> bool" where
  "is_nonterminal symbol \<longleftrightarrow> symbol \<in> set NONTERMINALS"

definition get_production :: "string \<Rightarrow> string \<Rightarrow> string list option" where
  "get_production nonterminal terminal =
     (case map_of PARSE_TABLE nonterminal of
        Some row \<Rightarrow> map_of row terminal
      | None \<Rightarrow> None)"


section \<open>Parse tree (parse_tree.py)\<close>

text \<open>
  Tree nodes are objects that the parser mutates through references held on its stack.
  The model keeps them in a store: a list of nodes, a reference being an index into it.
  A new node goes to the end of the list, so references already handed out stay valid.
\<close>

record ParseTreeNode =
  symbol :: string
  nvalue :: string
  children :: "nat list"

type_synonym store = "ParseTreeNode list"

record ParseTree =
  root :: "nat option"
  nodes :: store

definition new_node :: "store \<Rightarrow> string \<Rightarrow> nat \<times> store" where
  "new_node h symb = (length h, h @ [\<lparr>symbol = symb, nvalue = [], children = []\<rparr>])"

definition add_child :: "store \<Rightarrow> nat \<Rightarrow> nat \<Rightarrow> store" where
  "add_child h parent child = h[parent := (h ! parent)\<lparr>children := children (h ! parent) @ [child]\<rparr>]"

definition set_value :: "store \<Rightarrow> nat \<Rightarrow> string \<Rightarrow> store" where
  "set_value h a v = h[a := (h ! a)\<lparr>nvalue := v\<rparr>]"

definition node_is_terminal :: "ParseTreeNode \<Rightarrow> bool" where
  "node_is_terminal n \<longleftrightarrow> length (children n) = 0 \<and> symbol n \<noteq> EPSILON"

definition is_epsilon :: "ParseTreeNode \<Rightarrow> bool" where
  "is_epsilon n \<longleftrightarrow> symbol n = EPSILON"

definition node_str :: "nat \<Rightarrow> ParseTreeNode \<Rightarrow> string" where
  "node_str depth n =
     (let indent = concat (replicate depth ''  '') in
      if nvalue n \<noteq> [] \<and> nvalue n \<noteq> symbol n
      then indent @ symbol n @ '' ('' @ nvalue n @ '')''
      else indent @ symbol n)"

text \<open>
  \<^verbatim>\<open>_preorder_helper\<close> recurses through the references of the store.  The first argument
  bounds the depth of the recursion; \<open>None\<close> says the bound was reached.
\<close>

fun preorder_helper ::
  "nat \<Rightarrow> store \<Rightarrow> nat option \<Rightarrow> string list \<Rightarrow> nat \<Rightarrow> bool \<Rightarrow> string list option" where
  "preorder_helper 0 h node result depth include_epsilon = None"
| "preorder_helper (Suc k) h None result depth include_epsilon = Some result"
| "preorder_helper (Suc k) h (Some a) result depth include_epsilon =
     (if is_epsilon (h ! a) \<and> \<not> include_epsilon then Some result
      else fold (\<lambda>child r. case r of
                   None \<Rightarrow> None
                 | Some res \<Rightarrow> preorder_helper k h (Some child) res (depth + 1) include_epsilon)
             (children (h ! a)) (Some (result @ [node_str depth (h ! a)])))"

definition preorder_traversal :: "nat \<Rightarrow> ParseTree \<Rightarrow> bool \<Rightarrow> string list option" where
  "preorder_traversal fuel tree include_epsilon =
     preorder_helper fuel (nodes tree) (root tree) [] 0 include_epsilon"

text \<open>
  The same walk, recording which node is visited at which depth instead of its rendering.
\<close>

fun preorder_visit ::
  "nat \<Rightarrow> store \<Rightarrow> nat option \<Rightarrow> (nat \<times> nat) list \<Rightarrow> nat \<Rightarrow> bool \<Rightarrow> (nat \<times> nat) list option" where
  "preorder_visit 0 h node result depth include_epsilon = None"
| "preorder_visit (Suc k) h None result depth include_epsilon = Some result"
| "preorder_visit (Suc k) h (Some a) result depth include_epsilon =
     (if is_epsilon (h ! a) \<and> \<not> include_epsilon then Some result
      else fold (\<lambda>child r. case r of
                   None \<Rightarrow> None
                 | Some res \<Rightarrow> preorder_visit k h (Some child) res (depth + 1) include_epsilon)
             (children (h ! a)) (Some (result @ [(depth, a)])))"

section \<open>Parser (parser.py)\<close>

record ParserError =
  pmessage :: string
  ptoken :: "Token option"

datatype exception = Parser_Error ParserError | Index_Error

definition expected_message :: "string \<Rightarrow> string \<Rightarrow> string" where
  "expected_message top_symbol found =
     ''Expected '' @ [CHR 0x27] @ top_symbol @ [CHR 0x27] @ '' but found ''
       @ [CHR 0x27] @ found @ [CHR 0x27]"

definition no_production_message :: "string \<Rightarrow> string \<Rightarrow> string" where
  "no_production_message top_symbol current_terminal =
     ''No production for ['' @ top_symbol @ '', '' @ current_terminal @ '']''"

definition unexpected_end_message :: string where
  "unexpected_end_message = ''Unexpected end of parsing''"

text \<open>
  The state of \<^verbatim>\<open>LL1Parser\<close> while \<^verbatim>\<open>parse\<close> runs.  The token list never changes and is
  passed beside the state.  The stack is kept with its top at the head of the list.
\<close>

record LL1Parser =
  ppos :: nat
  stack :: "(string \<times> nat option) list"
  pstore :: store

definition current_token :: "Token list \<Rightarrow> nat \<Rightarrow> exception + Token" where
  "current_token toks p =
     (if p < length toks then Inr (toks ! p)
      else if toks = [] then Inl Index_Error
      else Inr (last toks))"

definition get_terminal :: "Token \<Rightarrow> string" where
  "get_terminal token =
     (case map_of TOKEN_TO_TERMINAL (ttype token) of Some t \<Rightarrow> t | None \<Rightarrow> tvalue token)"

definition padvance :: "Token list \<Rightarrow> nat \<Rightarrow> nat" where
  "padvance toks p = (if p < length toks - 1 then p + 1 else p)"

text \<open>The loop that creates one child node per symbol of the production.\<close>

fun make_children :: "store \<Rightarrow> nat option \<Rightarrow> string list \<Rightarrow> nat list \<Rightarrow> store \<times> nat list" where
  "make_children h top_node [] child_nodes = (h, child_nodes)"
| "make_children h top_node (symb # symbs) child_nodes =
     (let (child, h1) = new_node h symb;
          h2 = (case top_node of Some a \<Rightarrow> add_child h1 a child | None \<Rightarrow> h1)
      in make_children h2 top_node symbs (child_nodes @ [child]))"

definition add_epsilon_child :: "store \<Rightarrow> nat option \<Rightarrow> store" where
  "add_epsilon_child h top_node =
     (case top_node of
        Some a \<Rightarrow> (let (child, h1) = new_node h EPSILON in add_child h1 a child)
      | None \<Rightarrow> h)"

datatype step_result = Accept ParseTree | Raise exception | Continue LL1Parser

text \<open>One pass through the body of the \<^verbatim>\<open>while\<close> loop of \<^verbatim>\<open>parse\<close>.\<close>

definition parse_step :: "Token list \<Rightarrow> LL1Parser \<Rightarrow> step_result" where
  "parse_step toks st =
     (case stack st of
        [] \<Rightarrow> Raise Index_Error
      | (top_symbol, top_node) # rest \<Rightarrow>
          (case current_token toks (ppos st) of
             Inl e \<Rightarrow> Raise e
           | Inr current \<Rightarrow>
               (let current_terminal = get_terminal current in
                if top_symbol = ''$'' \<and> current_terminal = ''$''
                then Accept \<lparr>root = Some 0, nodes = pstore st\<rparr>
                else if is_terminal top_symbol \<and> top_symbol \<noteq> EPSILON then
                  (if top_symbol = current_terminal
                   then Continue \<lparr>ppos = padvance toks (ppos st), stack = rest,
                          pstore = (case top_node of
                                      Some a \<Rightarrow> set_value (pstore st) a (tvalue current)
                                    | None \<Rightarrow> pstore st)\<rparr>
                   else Raise (Parser_Error
                          \<lparr>pmessage = expected_message top_symbol (tvalue current),
                           ptoken = Some current\<rparr>))
                else if top_symbol = EPSILON
                then Continue \<lparr>ppos = ppos st, stack = rest,
                       pstore = add_epsilon_child (pstore st) top_node\<rparr>
                else if is_nonterminal top_symbol then
                  (case get_production top_symbol current_terminal of
                     None \<Rightarrow> Raise (Parser_Error
                          \<lparr>pmessage = no_production_message top_symbol current_terminal,
                           ptoken = Some current\<rparr>)
                   | Some production \<Rightarrow>
                       if production = [EPSILON]
                       then Continue \<lparr>ppos = ppos st, stack = rest,
                              pstore = add_epsilon_child (pstore st) top_node\<rparr>
                       else (let (h, child_nodes) =
                                   make_children (pstore st) top_node production []
                             in Continue \<lparr>ppos = ppos st,
                                  stack = zip production (map Some child_nodes) @ rest,
                                  pstore = h\<rparr>))
                else Continue \<lparr>ppos = ppos st, stack = rest, pstore = pstore st\<rparr>)))"

text \<open>
  The loop itself.  It may run forever on a token list that does not end in the
  end-of-input token, so it is a partial function: \<open>None\<close> is "does not return",
  \<open>Some (Inl e)\<close> a raised exception and \<open>Some (Inr r)\<close> the returned pair.
\<close>

partial_function (option) parse_loop ::
  "Token list \<Rightarrow> LL1Parser \<Rightarrow> (exception + bool \<times> ParseTree option) option" where
  "parse_loop toks st =
     (if length (stack st) > 0 then
        (case parse_step toks st of
           Accept tree \<Rightarrow> Some (Inr (True, Some tree))
         | Raise e \<Rightarrow> Some (Inl e)
         | Continue st' \<Rightarrow> parse_loop toks st')
      else Some (Inl (Parser_Error \<lparr>pmessage = unexpected_end_message, ptoken = None\<rparr>)))"

definition parse_init :: LL1Parser where
  "parse_init =
     \<lparr>ppos = 0, stack = [(''Program'', Some 0), (''$'', None)],
      pstore = [\<lparr>symbol = ''Program'', nvalue = [], children = []\<rparr>]\<rparr>"

definition parse :: "Token list \<Rightarrow> (exception + bool \<times> ParseTree option) option" where
  "parse toks = parse_loop toks parse_init"

text \<open>
  \<^verbatim>\<open>parse_string\<close> turns every exception of the lexer and every \<^verbatim>\<open>ParserError\<close> into
  the pair \<open>(False, None)\<close>; any other exception of the parser passes through.
\<close>

definition parse_string :: "string \<Rightarrow> (exception + bool \<times> ParseTree option) option" where
  "parse_string src =
     (case tokenize src of
        Inl e \<Rightarrow> Some (Inr (False, None))
      | Inr toks \<Rightarrow>
          (case parse toks of
             None \<Rightarrow> None
           | Some (Inl (Parser_Error e)) \<Rightarrow> Some (Inr (False, None))
           | Some (Inl Index_Error) \<Rightarrow> Some (Inl Index_Error)
           | Some (Inr r) \<Rightarrow> Some (Inr r)))"


section \<open>Properties of the lexer\<close>

subsection \<open>Numeric literals\<close>

lemma isdigit_not_newline: "isdigit c \<Longrightarrow> c \<noteq> CHR 0x0A"
  by (auto simp: isdigit_def Let_def)

lemma advance_plain:
  "current_char s = Some c \<Longrightarrow> c \<noteq> CHR 0x0A \<Longrightarrow>
   snd (advance s) = s\<lparr>pos := pos s + 1, column := column s + 1\<rparr>"
  by (simp add: advance_def Let_def)

lemma current_char_drop:
  "current_char s = (case drop (pos s) (source s) of [] \<Rightarrow> None | c # _ \<Rightarrow> Some c)"
  by (auto simp: current_char_def hd_drop_conv_nth split: list.splits)
     (metis Cons_nth_drop_Suc list.inject not_le)

lemma peek_drop:
  "peek s (Suc 0) = (case drop (pos s) (source s) of c # d # _ \<Rightarrow> Some d | _ \<Rightarrow> None)"
proof (cases "pos s + 1 < length (source s)")
  case True
  then have "drop (pos s) (source s) = source s ! pos s # source s ! (pos s + 1) # drop (pos s + 2) (source s)"
    by (metis Cons_nth_drop_Suc Suc_eq_plus1 add_2_eq_Suc' add_lessD1)
  then show ?thesis using True by (simp add: peek_def)
next
  case False
  have "drop (pos s) (source s) \<noteq> c # d # r" for c d r
  proof
    assume "drop (pos s) (source s) = c # d # r"
    then have "length (drop (pos s) (source s)) = Suc (Suc (length r))" by simp
    then show False using False by simp
  qed
  then show ?thesis using False
    by (auto simp: peek_def Let_def split: list.splits)
qed

lemma read_digits_run:
  "read_digits s r =
     (let ds = takeWhile isdigit (drop (pos s) (source s)) in
      (s\<lparr>pos := pos s + length ds, column := column s + length ds\<rparr>, r @ ds))"
proof (induction s r rule: read_digits.induct)
  case (1 s result)
  show ?case
  proof (cases "drop (pos s) (source s)")
    case Nil
    then show ?thesis by (subst read_digits.simps) (simp add: current_char_drop)
  next
    case (Cons c cs)
    then have cc: "current_char s = Some c" by (simp add: current_char_drop)
    show ?thesis
    proof (cases "isdigit c")
      case False
      then show ?thesis using Cons cc by (subst read_digits.simps) simp
    next
      case True
      have adv: "snd (advance s) = s\<lparr>pos := pos s + 1, column := column s + 1\<rparr>"
        using advance_plain [OF cc] isdigit_not_newline [OF True] by simp
      have dr: "drop (pos s + 1) (source s) = cs"
        using Cons by (metis Suc_eq_plus1 drop_Suc tl_drop list.sel(3))
      show ?thesis
        using "1.IH" [OF cc True] Cons cc True adv dr
        by (subst read_digits.simps) (simp add: Let_def)
    qed
  qed
qed

lemma drop_takeWhile_dropWhile:
  "drop (p + length (takeWhile P (drop p xs))) xs = dropWhile P (drop p xs)"
  by (metis add.commute drop_drop dropWhile_eq_drop)

lemma read_number_run:
  "read_number s =
     (let rest = drop (pos s) (source s);
          ds = takeWhile isdigit rest;
          after = dropWhile isdigit rest;
          lexeme = (case after of
                      c # d # _ \<Rightarrow> if c = CHR ''.'' \<and> isdigit d
                                   then ds @ ''.'' @ takeWhile isdigit (tl after) else ds
                    | _ \<Rightarrow> ds)
      in (\<lparr>ttype = NUM, tvalue = lexeme, tline = line s, tcolumn = column s\<rparr>,
          s\<lparr>pos := pos s + length lexeme, column := column s + length lexeme\<rparr>))"
proof -
  define rest where "rest = drop (pos s) (source s)"
  define ds where "ds = takeWhile isdigit rest"
  define after where "after = dropWhile isdigit rest"
  define s1 where "s1 = s\<lparr>pos := pos s + length ds, column := column s + length ds\<rparr>"
  have rd: "read_digits s [] = (s1, ds)"
    by (simp add: read_digits_run Let_def s1_def ds_def rest_def)
  have dr1: "drop (pos s1) (source s1) = after"
    unfolding s1_def after_def ds_def rest_def by (simp add: drop_takeWhile_dropWhile)
  show ?thesis
  proof (cases "\<exists>d tl'. after = CHR ''.'' # d # tl' \<and> isdigit d")
    case True
    then obtain d tl' where a: "after = CHR ''.'' # d # tl'" and d: "isdigit d" by blast
    have cc: "current_char s1 = Some (CHR ''.'')" using dr1 a by (simp add: current_char_drop)
    have pk: "peek s1 1 = Some d" using dr1 a by (simp add: peek_drop)
    have adv: "snd (advance s1) = s1\<lparr>pos := pos s1 + 1, column := column s1 + 1\<rparr>"
      using advance_plain [OF cc] by simp
    have dr2: "drop (pos s1 + 1) (source s1) = d # tl'"
      using dr1 a by (metis Suc_eq_plus1 drop_Suc tl_drop list.sel(3))
    show ?thesis
      using rd cc pk d adv dr2 a
      by (simp add: read_number_def read_digits_run Let_def s1_def
            rest_def [symmetric] ds_def [symmetric] after_def [symmetric])
  next
    case False
    then have "\<not> (current_char s1 = Some (CHR ''.'')
                \<and> (case peek s1 1 of Some d \<Rightarrow> isdigit d | None \<Rightarrow> False))"
      using dr1 by (auto simp: current_char_drop peek_drop split: list.splits)
    then show ?thesis
      using rd False
      by (auto simp: read_number_def Let_def s1_def
            rest_def [symmetric] ds_def [symmetric] after_def [symmetric] split: list.splits)
  qed
qed


text \<open>
  Claim C6.  \<^verbatim>\<open>read_number\<close> takes the run of digits at the cursor and, only when the
  next character is a dot that a digit follows, the dot and the run of digits after it;
  a dot that no digit follows stays in the input.  The token is a \<open>NUM\<close> whose lexeme is
  exactly what was taken, and the cursor stands right behind it.  So the text \<open>3.14\<close> is
  one \<open>NUM\<close> token with the lexeme \<open>3.14\<close>, and the text \<open>3.\<close> is a \<open>NUM\<close> token with
  the lexeme \<open>3\<close> and then a \<open>DOT\<close> token.
\<close>

theorem number_literal_boundary:
  "read_number s =
     (let rest = drop (pos s) (source s);
          ds = takeWhile isdigit rest;
          after = dropWhile isdigit rest;
          lexeme = (case after of
                      c # d # _ \<Rightarrow> if c = CHR ''.'' \<and> isdigit d
                                   then ds @ ''.'' @ takeWhile isdigit (tl after) else ds
                    | _ \<Rightarrow> ds)
      in (\<lparr>ttype = NUM, tvalue = lexeme, tline = line s, tcolumn = column s\<rparr>,
          s\<lparr>pos := pos s + length lexeme, column := column s + length lexeme\<rparr>))
   \<and> tokenize ''3.14'' =
       Inr [\<lparr>ttype = NUM, tvalue = ''3.14'', tline = 1, tcolumn = 1\<rparr>,
            \<lparr>ttype = EOF, tvalue = ''$'', tline = 1, tcolumn = 5\<rparr>]
   \<and> tokenize ''3.'' =
       Inr [\<lparr>ttype = NUM, tvalue = ''3'', tline = 1, tcolumn = 1\<rparr>,
            \<lparr>ttype = DOT, tvalue = ''.'', tline = 1, tcolumn = 2\<rparr>,
            \<lparr>ttype = EOF, tvalue = ''$'', tline = 1, tcolumn = 3\<rparr>]"
proof (intro conjI)
  show "tokenize ''3.14'' =
       Inr [\<lparr>ttype = NUM, tvalue = ''3.14'', tline = 1, tcolumn = 1\<rparr>,
            \<lparr>ttype = EOF, tvalue = ''$'', tline = 1, tcolumn = 5\<rparr>]"
    by (simp add: lex_eval)
  show "tokenize ''3.'' =
       Inr [\<lparr>ttype = NUM, tvalue = ''3'', tline = 1, tcolumn = 1\<rparr>,
            \<lparr>ttype = DOT, tvalue = ''.'', tline = 1, tcolumn = 2\<rparr>,
            \<lparr>ttype = EOF, tvalue = ''$'', tline = 1, tcolumn = 3\<rparr>]"
    by (simp add: lex_eval)
qed (rule read_number_run)

subsection \<open>Identifiers and keywords\<close>

lemma ident_char_not_newline: "isalnum c \<or> c = CHR ''_'' \<Longrightarrow> c \<noteq> CHR 0x0A"
  by (auto simp: isalnum_def isalpha_def isdigit_def Let_def)

lemma read_ident_chars_run:
  "read_ident_chars s r =
     (let w = takeWhile (\<lambda>c. isalnum c \<or> c = CHR ''_'') (drop (pos s) (source s)) in
      (s\<lparr>pos := pos s + length w, column := column s + length w\<rparr>, r @ w))"
proof (induction s r rule: read_ident_chars.induct)
  case (1 s result)
  show ?case
  proof (cases "drop (pos s) (source s)")
    case Nil
    then show ?thesis by (subst read_ident_chars.simps) (simp add: current_char_drop)
  next
    case (Cons c cs)
    then have cc: "current_char s = Some c" by (simp add: current_char_drop)
    show ?thesis
    proof (cases "isalnum c \<or> c = CHR ''_''")
      case False
      then show ?thesis using Cons cc by (subst read_ident_chars.simps) simp
    next
      case True
      have adv: "snd (advance s) = s\<lparr>pos := pos s + 1, column := column s + 1\<rparr>"
        using advance_plain [OF cc] ident_char_not_newline [OF True] by simp
      have dr: "drop (pos s + 1) (source s) = cs"
        using Cons by (metis Suc_eq_plus1 drop_Suc tl_drop list.sel(3))
      show ?thesis
        using "1.IH" [OF cc True] Cons cc True adv dr
        by (subst read_ident_chars.simps) (auto simp: Let_def)
    qed
  qed
qed

lemma read_identifier_run:
  "read_identifier s =
     (let w = takeWhile (\<lambda>c. isalnum c \<or> c = CHR ''_'') (drop (pos s) (source s)) in
      (\<lparr>ttype = (case map_of KEYWORDS (lower w) of Some k \<Rightarrow> k | None \<Rightarrow> ID),
        tvalue = w, tline = line s, tcolumn = column s\<rparr>,
       s\<lparr>pos := pos s + length w, column := column s + length w\<rparr>))"
  by (simp add: read_identifier_def read_ident_chars_run Let_def split: option.splits)

lemma ident_start_class:
  "isalpha c \<or> c = CHR ''_'' \<Longrightarrow>
     \<not> isspace c \<and> \<not> isdigit c \<and> c \<noteq> CHR ''{'' \<and> c \<noteq> CHR ''(''"
  by (auto simp: isalpha_def isspace_def isdigit_def Let_def)

lemma tokenize_loop_end:
  "pos s \<ge> length (source s) \<Longrightarrow> tokenize_loop s = Inr s"
  by (subst tokenize_loop.simps) (simp add: current_char_def)

lemma tokenize_word:
  assumes "w \<noteq> []" and "isalpha (hd w) \<or> hd w = CHR ''_''"
    and "list_all (\<lambda>c. isalnum c \<or> c = CHR ''_'') w"
  shows "tokenize w =
     Inr [\<lparr>ttype = (case map_of KEYWORDS (lower w) of Some k \<Rightarrow> k | None \<Rightarrow> ID),
           tvalue = w, tline = 1, tcolumn = 1\<rparr>,
          \<lparr>ttype = EOF, tvalue = ''$'', tline = 1, tcolumn = 1 + length w\<rparr>]"
proof -
  let ?s = "Lexer_init w"
  have cc: "current_char ?s = Some (hd w)"
    using assms(1) by (cases w) (simp_all add: current_char_def Lexer_init_def)
  have tw: "takeWhile (\<lambda>c. isalnum c \<or> c = CHR ''_'') (drop (pos ?s) (source ?s)) = w"
    using assms(3) by (simp add: Lexer_init_def list_all_iff)
  have ri: "read_identifier ?s =
      (\<lparr>ttype = (case map_of KEYWORDS (lower w) of Some k \<Rightarrow> k | None \<Rightarrow> ID),
        tvalue = w, tline = 1, tcolumn = 1\<rparr>,
       ?s\<lparr>pos := length w, column := 1 + length w\<rparr>)"
    unfolding read_identifier_run Let_def tw by (simp add: Lexer_init_def)
  have "tokenize_loop ?s =
     tokenize_loop (snd (read_identifier ?s)\<lparr>tokens := tokens ?s @ [fst (read_identifier ?s)]\<rparr>)"
    using cc ident_start_class [OF assms(2)] assms(2)
    by (subst tokenize_loop.simps) simp
  also have "\<dots> = Inr (snd (read_identifier ?s)\<lparr>tokens := tokens ?s @ [fst (read_identifier ?s)]\<rparr>)"
    unfolding ri by (rule tokenize_loop_end) (simp add: Lexer_init_def)
  finally have "tokenize_loop ?s =
      Inr (snd (read_identifier ?s)\<lparr>tokens := tokens ?s @ [fst (read_identifier ?s)]\<rparr>)" .
  then show ?thesis
    unfolding tokenize_def tokenize_rest_def ri by (simp add: Lexer_init_def)
qed


text \<open>
  Claim C7.  A text that is one word (a letter or underscore, then letters, digits and
  underscores) lexes to one token and the end-of-input token.  The token's type is the
  keyword type stored for the lowercased word when there is one, and \<open>ID\<close> otherwise;
  its lexeme is the word as written.  So \<open>PROGRAM\<close>, \<open>Program\<close> and \<open>program\<close> are
  all \<open>PROGRAM\<close> tokens, each with its own casing as lexeme, and \<open>Program1\<close> is an
  \<open>ID\<close> token.
\<close>

theorem keyword_case_insensitive:
  "(w \<noteq> [] \<and> (isalpha (hd w) \<or> hd w = CHR ''_'')
      \<and> list_all (\<lambda>c. isalnum c \<or> c = CHR ''_'') w \<longrightarrow>
    tokenize w =
      Inr [\<lparr>ttype = (case map_of KEYWORDS (lower w) of Some k \<Rightarrow> k | None \<Rightarrow> ID),
            tvalue = w, tline = 1, tcolumn = 1\<rparr>,
           \<lparr>ttype = EOF, tvalue = ''$'', tline = 1, tcolumn = 1 + length w\<rparr>])
   \<and> tokenize ''PROGRAM'' =
       Inr [\<lparr>ttype = PROGRAM, tvalue = ''PROGRAM'', tline = 1, tcolumn = 1\<rparr>,
            \<lparr>ttype = EOF, tvalue = ''$'', tline = 1, tcolumn = 8\<rparr>]
   \<and> tokenize ''Program'' =
       Inr [\<lparr>ttype = PROGRAM, tvalue = ''Program'', tline = 1, tcolumn = 1\<rparr>,
            \<lparr>ttype = EOF, tvalue = ''$'', tline = 1, tcolumn = 8\<rparr>]
   \<and> tokenize ''program'' =
       Inr [\<lparr>ttype = PROGRAM, tvalue = ''program'', tline = 1, tcolumn = 1\<rparr>,
            \<lparr>ttype = EOF, tvalue = ''$'', tline = 1, tcolumn = 8\<rparr>]
   \<and> tokenize ''Program1'' =
       Inr [\<lparr>ttype = ID, tvalue = ''Program1'', tline = 1, tcolumn = 1\<rparr>,
            \<lparr>ttype = EOF, tvalue = ''$'', tline = 1, tcolumn = 9\<rparr>]"
proof (intro conjI impI)
  assume "w \<noteq> [] \<and> (isalpha (hd w) \<or> hd w = CHR ''_'')
      \<and> list_all (\<lambda>c. isalnum c \<or> c = CHR ''_'') w"
  then show "tokenize w =
      Inr [\<lparr>ttype = (case map_of KEYWORDS (lower w) of Some k \<Rightarrow> k | None \<Rightarrow> ID),
            tvalue = w, tline = 1, tcolumn = 1\<rparr>,
           \<lparr>ttype = EOF, tvalue = ''$'', tline = 1, tcolumn = 1 + length w\<rparr>]"
    using tokenize_word [of w] by blast
qed (simp_all add: lex_eval)

theorem keyword_case_insensitive_witness:
  "''Begin'' \<noteq> [] \<and> (isalpha (hd ''Begin'') \<or> hd ''Begin'' = CHR ''_'')
   \<and> list_all (\<lambda>c. isalnum c \<or> c = CHR ''_'') ''Begin''
   \<and> tokenize ''Begin'' =
       Inr [\<lparr>ttype = BEGIN, tvalue = ''Begin'', tline = 1, tcolumn = 1\<rparr>,
            \<lparr>ttype = EOF, tvalue = ''$'', tline = 1, tcolumn = 6\<rparr>]"
proof -
  have h: "''Begin'' \<noteq> [] \<and> (isalpha (hd ''Begin'') \<or> hd ''Begin'' = CHR ''_'')
      \<and> list_all (\<lambda>c. isalnum c \<or> c = CHR ''_'') ''Begin''"
    by (simp add: isalpha_def isalnum_def Let_def)
  have "tokenize ''Begin'' =
      Inr [\<lparr>ttype = (case map_of KEYWORDS (lower ''Begin'') of Some k \<Rightarrow> k | None \<Rightarrow> ID),
            tvalue = ''Begin'', tline = 1, tcolumn = 1\<rparr>,
           \<lparr>ttype = EOF, tvalue = ''$'', tline = 1, tcolumn = 1 + length ''Begin''\<rparr>]"
    using keyword_case_insensitive [of "''Begin''"] h by blast
  then show ?thesis
    using h by (simp add: KEYWORDS_def lower_def lower_char_def char_of_eval)
qed

subsection \<open>Unterminated comments\<close>

text \<open>Whether a text holds a star with a closing parenthesis right behind it.\<close>

fun has_close :: "string \<Rightarrow> bool" where
  "has_close (c # d # r) \<longleftrightarrow> (c = CHR ''*'' \<and> d = CHR '')'') \<or> has_close (d # r)"
| "has_close [c] \<longleftrightarrow> False"
| "has_close [] \<longleftrightarrow> False"

lemma drop_Suc_pos:
  "drop (pos s) (source s) = c # cs \<Longrightarrow> drop (pos s + 1) (source s) = cs"
  by (metis Suc_eq_plus1 drop_Suc tl_drop list.sel(3))

lemma skip_to_brace_unterminated:
  "CHR ''}'' \<notin> set (drop (pos s) (source s)) \<Longrightarrow> pos s \<le> length (source s)
   \<Longrightarrow> pos (skip_to_brace s) = length (source s)"
proof (induction s rule: skip_to_brace.induct)
  case (1 s)
  show ?case
  proof (cases "drop (pos s) (source s)")
    case Nil
    then show ?thesis using "1.prems"
      by (subst skip_to_brace.simps) (simp add: current_char_drop)
  next
    case (Cons c cs)
    then have cc: "current_char s = Some c" by (simp add: current_char_drop)
    have ne: "c \<noteq> CHR ''}''" using "1.prems" Cons by auto
    have "CHR ''}'' \<notin> set (drop (pos (snd (advance s))) (source (snd (advance s))))"
      using "1.prems" Cons drop_Suc_pos [OF Cons] by simp
    moreover have "pos (snd (advance s)) \<le> length (source (snd (advance s)))"
      using current_char_Some [OF cc] by simp
    ultimately show ?thesis
      using "1.IH" [OF cc ne] cc ne by (subst skip_to_brace.simps) simp
  qed
qed

lemma skip_to_star_paren_unterminated:
  "\<not> has_close (drop (pos s) (source s)) \<Longrightarrow> pos s \<le> length (source s)
   \<Longrightarrow> pos (skip_to_star_paren s) = length (source s)"
proof (induction s rule: skip_to_star_paren.induct)
  case (1 s)
  show ?case
  proof (cases "drop (pos s) (source s)")
    case Nil
    then show ?thesis using "1.prems"
      by (subst skip_to_star_paren.simps) (simp add: current_char_drop)
  next
    case (Cons c cs)
    then have cc: "current_char s = Some c" by (simp add: current_char_drop)
    have nc: "\<not> (c = CHR ''*'' \<and> peek s 1 = Some (CHR '')''))"
      using "1.prems"(1) Cons by (cases cs) (auto simp: peek_drop)
    have "\<not> has_close cs" using "1.prems"(1) Cons by (cases cs) auto
    then have "\<not> has_close (drop (pos (snd (advance s))) (source (snd (advance s))))"
      using drop_Suc_pos [OF Cons] by simp
    moreover have "pos (snd (advance s)) \<le> length (source (snd (advance s)))"
      using current_char_Some [OF cc] by simp
    ultimately show ?thesis
      using "1.IH" [OF cc nc] cc nc by (subst skip_to_star_paren.simps) auto
  qed
qed

lemma skip_comment_brace_unterminated:
  assumes "current_char s = Some (CHR ''{'')"
    and "CHR ''}'' \<notin> set (drop (pos s + 1) (source s))"
  shows "pos (skip_comment s) = length (source s)"
proof -
  let ?s1 = "snd (advance s)"
  have p: "pos (skip_to_brace ?s1) = length (source s)"
    using skip_to_brace_unterminated [of ?s1] assms current_char_Some [OF assms(1)] by simp
  then have "current_char (skip_to_brace ?s1) = None" by (simp add: current_char_def)
  then show ?thesis using assms(1) p by (simp add: skip_comment_def Let_def)
qed

lemma skip_comment_paren_unterminated:
  assumes "current_char s = Some (CHR ''('')" and "peek s 1 = Some (CHR ''*'')"
    and "\<not> has_close (drop (pos s + 2) (source s))"
  shows "pos (skip_comment s) = length (source s)"
proof -
  let ?s2 = "snd (advance (snd (advance s)))"
  have "pos s + 1 < length (source s)"
    using assms(2) by (simp add: peek_def Let_def split: if_splits)
  then have "pos (skip_to_star_paren ?s2) = length (source s)"
    using skip_to_star_paren_unterminated [of ?s2] assms(3) by simp
  then show ?thesis using assms(1,2) by (simp add: skip_comment_def Let_def)
qed

lemma tokenize_loop_comment:
  assumes "current_char s = Some c"
    and "c = CHR ''{'' \<or> (c = CHR ''('' \<and> peek s 1 = Some (CHR ''*''))"
  shows "tokenize_loop s = tokenize_loop (skip_comment s)"
proof -
  have "\<not> isspace c" using assms(2) by (auto simp: isspace_def)
  then show ?thesis using assms by (subst tokenize_loop.simps) auto
qed


text \<open>
  Which states the loop of \<^verbatim>\<open>tokenize\<close> comes to.  The definition of \<^const>\<open>tokenize_loop\<close>
  generates its call relation \<^const>\<open>tokenize_loop_rel\<close>: \<open>tokenize_loop_rel s' s\<close> says that
  the loop body, entered in the state \<open>s\<close>, goes round again in the state \<open>s'\<close>.  The loop
  run on the text \<open>src\<close> reaches \<open>s\<close> when a chain of such rounds leads from the starting
  state of \<open>src\<close> to \<open>s\<close>.
\<close>

definition loop_reaches :: "string \<Rightarrow> Lexer \<Rightarrow> bool" where
  "loop_reaches src s \<longleftrightarrow> tokenize_loop_rel\<^sup>*\<^sup>* s (Lexer_init src)"

lemma tokenize_loop_rel_same:
  assumes "tokenize_loop_rel s' s"
  shows "tokenize_loop s = tokenize_loop s'"
  using assms
  by (cases rule: tokenize_loop_rel.cases; subst tokenize_loop.simps; auto)

lemma tokenize_loop_rel_source:
  assumes "tokenize_loop_rel s' s"
  shows "source s' = source s"
  using assms
  by (cases rule: tokenize_loop_rel.cases; simp add: append_token_def)

lemma loop_reaches_same:
  assumes "loop_reaches src s"
  shows "tokenize_loop (Lexer_init src) = tokenize_loop s \<and> source s = src"
  using assms unfolding loop_reaches_def
proof (induction rule: converse_rtranclp_induct)
  case base
  show ?case by (simp add: Lexer_init_def)
next
  case (step y z)
  then show ?case
    using tokenize_loop_rel_same [of y z] tokenize_loop_rel_source [of y z] by simp
qed

text \<open>
  Claim C8.  Take any text and any state that the loop of \<^verbatim>\<open>tokenize\<close> reaches on it.
  When that state stands at an opening brace that no closing brace follows, or at an
  opening parenthesis and star that no star and closing parenthesis follow, the comment
  scanner runs to the end of the text and \<^verbatim>\<open>tokenize\<close> raises nothing: it returns the
  tokens made before the comment and then the end-of-input token, placed where the scan
  stopped.
\<close>

theorem unterminated_comment_tolerated:
  "(loop_reaches src s \<and> current_char s = Some (CHR ''{'')
      \<and> CHR ''}'' \<notin> set (drop (pos s + 1) src)
      \<longrightarrow> pos (skip_comment s) = length src
        \<and> tokenize src =
            Inr (tokens s @ [\<lparr>ttype = EOF, tvalue = ''$'', tline = line (skip_comment s),
                              tcolumn = column (skip_comment s)\<rparr>]))
   \<and> (loop_reaches src s \<and> current_char s = Some (CHR ''('') \<and> peek s 1 = Some (CHR ''*'')
        \<and> \<not> has_close (drop (pos s + 2) src)
      \<longrightarrow> pos (skip_comment s) = length src
        \<and> tokenize src =
            Inr (tokens s @ [\<lparr>ttype = EOF, tvalue = ''$'', tline = line (skip_comment s),
                              tcolumn = column (skip_comment s)\<rparr>]))"
proof (intro conjI impI)
  assume a: "loop_reaches src s \<and> current_char s = Some (CHR ''{'')
      \<and> CHR ''}'' \<notin> set (drop (pos s + 1) src)"
  then have r: "tokenize_loop (Lexer_init src) = tokenize_loop s" and e: "source s = src"
    using loop_reaches_same by blast+
  show p: "pos (skip_comment s) = length src"
    using skip_comment_brace_unterminated [of s] a e by simp
  have "tokenize_loop s = Inr (skip_comment s)"
    using tokenize_loop_comment [of s "CHR ''{''"] a tokenize_loop_end [of "skip_comment s"] p e
    by simp
  then show "tokenize src =
      Inr (tokens s @ [\<lparr>ttype = EOF, tvalue = ''$'', tline = line (skip_comment s),
                        tcolumn = column (skip_comment s)\<rparr>])"
    using r by (simp add: tokenize_def tokenize_rest_def)
next
  assume a: "loop_reaches src s \<and> current_char s = Some (CHR ''('') \<and> peek s 1 = Some (CHR ''*'')
        \<and> \<not> has_close (drop (pos s + 2) src)"
  then have r: "tokenize_loop (Lexer_init src) = tokenize_loop s" and e: "source s = src"
    using loop_reaches_same by blast+
  show p: "pos (skip_comment s) = length src"
    using skip_comment_paren_unterminated [of s] a e by simp
  have "tokenize_loop s = Inr (skip_comment s)"
    using tokenize_loop_comment [of s "CHR ''(''"] a tokenize_loop_end [of "skip_comment s"] p e
    by simp
  then show "tokenize src =
      Inr (tokens s @ [\<lparr>ttype = EOF, tvalue = ''$'', tline = line (skip_comment s),
                        tcolumn = column (skip_comment s)\<rparr>])"
    using r by (simp add: tokenize_def tokenize_rest_def)
qed

definition open_brace_state :: Lexer where
  "open_brace_state =
     \<lparr>source = ''x {abc'', pos = 2, line = 1, column = 3,
      tokens = [\<lparr>ttype = ID, tvalue = ''x'', tline = 1, tcolumn = 1\<rparr>]\<rparr>"

definition open_paren_state :: Lexer where
  "open_paren_state =
     \<lparr>source = ''y (*a*'', pos = 2, line = 1, column = 3,
      tokens = [\<lparr>ttype = ID, tvalue = ''y'', tline = 1, tcolumn = 1\<rparr>]\<rparr>"

lemma reaches_open_brace_state: "loop_reaches ''x {abc'' open_brace_state"
proof -
  let ?i = "Lexer_init ''x {abc''"
  let ?s1 = "snd (read_identifier ?i)\<lparr>tokens := tokens ?i @ [fst (read_identifier ?i)]\<rparr>"
  have r1: "tokenize_loop_rel ?s1 ?i"
    by (rule tokenize_loop_rel.intros(4) [where ?x2.0 = "CHR ''x''"])
       (simp_all add: lex_eval)
  have c1: "current_char ?s1 = Some (CHR '' '')" by (simp add: lex_eval)
  have r2: "tokenize_loop_rel (skip_whitespace ?s1) ?s1"
    by (rule tokenize_loop_rel.intros(1) [OF c1]) (simp add: isspace_def)
  have e: "skip_whitespace ?s1 = open_brace_state"
    by (simp add: lex_eval open_brace_state_def)
  have "tokenize_loop_rel\<^sup>*\<^sup>* (skip_whitespace ?s1) ?i"
    using r1 r2 by (meson converse_rtranclp_into_rtranclp rtranclp.rtrancl_refl)
  then show ?thesis unfolding loop_reaches_def e .
qed

lemma reaches_open_paren_state: "loop_reaches ''y (*a*'' open_paren_state"
proof -
  let ?i = "Lexer_init ''y (*a*''"
  let ?s1 = "snd (read_identifier ?i)\<lparr>tokens := tokens ?i @ [fst (read_identifier ?i)]\<rparr>"
  have r1: "tokenize_loop_rel ?s1 ?i"
    by (rule tokenize_loop_rel.intros(4) [where ?x2.0 = "CHR ''y''"])
       (simp_all add: lex_eval)
  have c1: "current_char ?s1 = Some (CHR '' '')" by (simp add: lex_eval)
  have r2: "tokenize_loop_rel (skip_whitespace ?s1) ?s1"
    by (rule tokenize_loop_rel.intros(1) [OF c1]) (simp add: isspace_def)
  have e: "skip_whitespace ?s1 = open_paren_state"
    by (simp add: lex_eval open_paren_state_def)
  have "tokenize_loop_rel\<^sup>*\<^sup>* (skip_whitespace ?s1) ?i"
    using r1 r2 by (meson converse_rtranclp_into_rtranclp rtranclp.rtrancl_refl)
  then show ?thesis unfolding loop_reaches_def e .
qed

theorem unterminated_comment_tolerated_witness:
  "loop_reaches ''x {abc'' open_brace_state
   \<and> current_char open_brace_state = Some (CHR ''{'')
   \<and> CHR ''}'' \<notin> set (drop (pos open_brace_state + 1) ''x {abc'')
   \<and> pos (skip_comment open_brace_state) = length ''x {abc''
   \<and> tokenize ''x {abc'' =
       Inr [\<lparr>ttype = ID, tvalue = ''x'', tline = 1, tcolumn = 1\<rparr>,
            \<lparr>ttype = EOF, tvalue = ''$'', tline = 1, tcolumn = 7\<rparr>]
   \<and> loop_reaches ''y (*a*'' open_paren_state
   \<and> current_char open_paren_state = Some (CHR ''('')
   \<and> peek open_paren_state 1 = Some (CHR ''*'')
   \<and> \<not> has_close (drop (pos open_paren_state + 2) ''y (*a*'')
   \<and> pos (skip_comment open_paren_state) = length ''y (*a*''
   \<and> tokenize ''y (*a*'' =
       Inr [\<lparr>ttype = ID, tvalue = ''y'', tline = 1, tcolumn = 1\<rparr>,
            \<lparr>ttype = EOF, tvalue = ''$'', tline = 1, tcolumn = 7\<rparr>]"
proof -
  have h1: "loop_reaches ''x {abc'' open_brace_state
      \<and> current_char open_brace_state = Some (CHR ''{'')
      \<and> CHR ''}'' \<notin> set (drop (pos open_brace_state + 1) ''x {abc'')"
    using reaches_open_brace_state by (simp add: open_brace_state_def current_char_def)
  have h2: "loop_reaches ''y (*a*'' open_paren_state
      \<and> current_char open_paren_state = Some (CHR ''('')
      \<and> peek open_paren_state 1 = Some (CHR ''*'')
      \<and> \<not> has_close (drop (pos open_paren_state + 2) ''y (*a*'')"
    using reaches_open_paren_state by (simp add: open_paren_state_def current_char_def peek_def)
  have c1: "pos (skip_comment open_brace_state) = length ''x {abc''
      \<and> tokenize ''x {abc'' =
      Inr (tokens open_brace_state @ [\<lparr>ttype = EOF, tvalue = ''$'',
             tline = line (skip_comment open_brace_state),
             tcolumn = column (skip_comment open_brace_state)\<rparr>])"
    using unterminated_comment_tolerated [of "''x {abc''" open_brace_state] h1 by blast
  have c2: "pos (skip_comment open_paren_state) = length ''y (*a*''
      \<and> tokenize ''y (*a*'' =
      Inr (tokens open_paren_state @ [\<lparr>ttype = EOF, tvalue = ''$'',
             tline = line (skip_comment open_paren_state),
             tcolumn = column (skip_comment open_paren_state)\<rparr>])"
    using unterminated_comment_tolerated [of "''y (*a*''" open_paren_state] h2 by blast
  have e1: "line (skip_comment open_brace_state) = 1 \<and> column (skip_comment open_brace_state) = 7"
    by (simp add: open_brace_state_def lex_eval)
  have e2: "line (skip_comment open_paren_state) = 1 \<and> column (skip_comment open_paren_state) = 7"
    by (simp add: open_paren_state_def lex_eval)
  have t1: "tokens open_brace_state = [\<lparr>ttype = ID, tvalue = ''x'', tline = 1, tcolumn = 1\<rparr>]"
    by (simp add: open_brace_state_def)
  have t2: "tokens open_paren_state = [\<lparr>ttype = ID, tvalue = ''y'', tline = 1, tcolumn = 1\<rparr>]"
    by (simp add: open_paren_state_def)
  show ?thesis
    using h1 h2 c1 c2 e1 e2 t1 t2 by simp
qed


section \<open>Properties of the parser\<close>

subsection \<open>Running the parser on a concrete token list\<close>

lemmas parse_eval = parse_def parse_init_def parse_loop.simps parse_step_def current_token_def
  get_terminal_def TOKEN_TO_TERMINAL_def is_terminal_def is_nonterminal_def TERMINALS_def
  NONTERMINALS_def EPSILON_def get_production_def PARSE_TABLE_def padvance_def
  new_node_def add_child_def set_value_def add_epsilon_child_def Let_def
  expected_message_def no_production_message_def unexpected_end_message_def

definition missing_rhs_tokens :: "Token list" where
  "missing_rhs_tokens =
    [\<lparr>ttype = PROGRAM, tvalue = ''program'', tline = 1, tcolumn = 1\<rparr>,
     \<lparr>ttype = ID, tvalue = ''t'', tline = 1, tcolumn = 9\<rparr>,
     \<lparr>ttype = SEMICOLON, tvalue = '';'', tline = 1, tcolumn = 10\<rparr>,
     \<lparr>ttype = BEGIN, tvalue = ''begin'', tline = 1, tcolumn = 12\<rparr>,
     \<lparr>ttype = ID, tvalue = ''x'', tline = 1, tcolumn = 18\<rparr>,
     \<lparr>ttype = ASSIGN, tvalue = '':='', tline = 1, tcolumn = 20\<rparr>,
     \<lparr>ttype = END, tvalue = ''end'', tline = 1, tcolumn = 23\<rparr>,
     \<lparr>ttype = DOT, tvalue = ''.'', tline = 1, tcolumn = 26\<rparr>,
     \<lparr>ttype = EOF, tvalue = ''$'', tline = 1, tcolumn = 27\<rparr>]"

lemma tokenize_missing_rhs:
  "tokenize ''program t; begin x := end.'' = Inr missing_rhs_tokens"
  by (simp add: lex_eval missing_rhs_tokens_def)

lemma parse_missing_rhs:
  "parse missing_rhs_tokens =
     Some (Inl (Parser_Error
       \<lparr>pmessage = ''No production for [Expression, end]'',
        ptoken = Some \<lparr>ttype = END, tvalue = ''end'', tline = 1, tcolumn = 23\<rparr>\<rparr>))"
  by (simp add: missing_rhs_tokens_def parse_eval)

text \<open>
  Claim C9.  The text \<open>program t; begin x := end.\<close> lexes to nine tokens, and parsing
  them raises the parser's no-production error for the nonterminal \<open>Expression\<close> under
  the lookahead \<open>end\<close>, at the \<open>end\<close> token: the parse table has no entry for that pair.
  \<^verbatim>\<open>parse_string\<close> therefore returns \<open>(False, None)\<close>.
\<close>

theorem missing_rhs_no_production:
  "tokenize ''program t; begin x := end.'' = Inr missing_rhs_tokens
   \<and> get_production ''Expression'' ''end'' = None
   \<and> parse missing_rhs_tokens =
       Some (Inl (Parser_Error
         \<lparr>pmessage = no_production_message ''Expression'' ''end'',
          ptoken = Some \<lparr>ttype = END, tvalue = ''end'', tline = 1, tcolumn = 23\<rparr>\<rparr>))
   \<and> parse_string ''program t; begin x := end.'' = Some (Inr (False, None))"
proof (intro conjI)
  show "get_production ''Expression'' ''end'' = None"
    by (simp add: get_production_def PARSE_TABLE_def)
  show "parse_string ''program t; begin x := end.'' = Some (Inr (False, None))"
    by (simp add: parse_string_def tokenize_missing_rhs parse_missing_rhs)
qed (simp_all add: tokenize_missing_rhs parse_missing_rhs no_production_message_def)


subsection \<open>Facts about the parse table\<close>

text \<open>The entries of the parse table as a list of triples.\<close>

definition table_entries :: "(string \<times> string \<times> string list) list" where
  "table_entries = concat (map (\<lambda>(A, row). map (\<lambda>(t, rhs). (A, t, rhs)) row) PARSE_TABLE)"

lemma get_production_entry:
  "get_production A t = Some rhs \<Longrightarrow> (A, t, rhs) \<in> set table_entries"
  unfolding get_production_def table_entries_def
  by (auto split: option.splits dest!: map_of_SomeD)

lemma table_keys_nonterminal:
  "list_all (\<lambda>(A, t, rhs). is_nonterminal A \<and> \<not> is_terminal A \<and> A \<noteq> ''$'') table_entries"
  by (simp add: table_entries_def PARSE_TABLE_def is_nonterminal_def is_terminal_def
        NONTERMINALS_def TERMINALS_def EPSILON_def)

lemma get_production_nonterminal:
  assumes "get_production A t = Some rhs"
  shows "is_nonterminal A \<and> \<not> is_terminal A \<and> A \<noteq> ''$''"
  using get_production_entry [OF assms] table_keys_nonterminal
  by (auto simp: list_all_iff)


subsection \<open>Epsilon steps\<close>

text \<open>
  Claim C5.  When the symbol on top of the stack is the epsilon marker, or a nonterminal
  whose table entry for the current terminal is the single-epsilon production, the step
  pops that symbol, attaches an epsilon leaf and leaves the cursor alone: the next pass
  of the loop sees the rest of the stack and reads the same token.
\<close>

theorem epsilon_step_keeps_cursor:
  assumes "stack st = (A, n) # rest"
    and "current_token toks (ppos st) = Inr cur"
    and "A = EPSILON \<or> get_production A (get_terminal cur) = Some [EPSILON]"
  shows "\<exists>st'. parse_step toks st = Continue st'
           \<and> ppos st' = ppos st
           \<and> current_token toks (ppos st') = Inr cur
           \<and> stack st' = rest
           \<and> pstore st' = add_epsilon_child (pstore st) n"
  using assms(3)
proof
  assume "A = EPSILON"
  then show ?thesis using assms(1,2)
    by (simp add: parse_step_def Let_def EPSILON_def)
next
  assume p: "get_production A (get_terminal cur) = Some [EPSILON]"
  then show ?thesis using assms(1,2) get_production_nonterminal [OF p]
    by (simp add: parse_step_def Let_def)
qed


definition epsilon_step_state :: LL1Parser where
  "epsilon_step_state =
     \<lparr>ppos = 3, stack = [(''Declarations'', Some 1), (''$'', None)],
      pstore = [\<lparr>symbol = ''Block'', nvalue = [], children = [1]\<rparr>,
                \<lparr>symbol = ''Declarations'', nvalue = [], children = []\<rparr>]\<rparr>"

theorem epsilon_step_keeps_cursor_witness:
  "stack epsilon_step_state = (''Declarations'', Some 1) # [(''$'', None)]
   \<and> current_token missing_rhs_tokens (ppos epsilon_step_state) =
       Inr \<lparr>ttype = BEGIN, tvalue = ''begin'', tline = 1, tcolumn = 12\<rparr>
   \<and> get_production ''Declarations''
         (get_terminal \<lparr>ttype = BEGIN, tvalue = ''begin'', tline = 1, tcolumn = 12\<rparr>)
       = Some [EPSILON]
   \<and> (\<exists>st'. parse_step missing_rhs_tokens epsilon_step_state = Continue st'
          \<and> ppos st' = 3
          \<and> current_token missing_rhs_tokens (ppos st') =
              Inr \<lparr>ttype = BEGIN, tvalue = ''begin'', tline = 1, tcolumn = 12\<rparr>
          \<and> stack st' = [(''$'', None)])"
proof -
  have h1: "stack epsilon_step_state = (''Declarations'', Some 1) # [(''$'', None)]"
    by (simp add: epsilon_step_state_def)
  have h2: "current_token missing_rhs_tokens (ppos epsilon_step_state) =
       Inr \<lparr>ttype = BEGIN, tvalue = ''begin'', tline = 1, tcolumn = 12\<rparr>"
    by (simp add: epsilon_step_state_def current_token_def missing_rhs_tokens_def)
  have h3: "get_production ''Declarations''
         (get_terminal \<lparr>ttype = BEGIN, tvalue = ''begin'', tline = 1, tcolumn = 12\<rparr>)
       = Some [EPSILON]"
    by (simp add: get_production_def PARSE_TABLE_def get_terminal_def TOKEN_TO_TERMINAL_def)
  have "ppos epsilon_step_state = 3" by (simp add: epsilon_step_state_def)
  then show ?thesis
    using epsilon_step_keeps_cursor [OF h1 h2 disjI2 [OF h3]] h1 h2 h3 by auto
qed


subsection \<open>A measure for the loop of the parser\<close>

text \<open>
  The loop of \<^verbatim>\<open>parse\<close> either consumes a token or replaces the top of the stack.  The
  symbols below can vanish without consuming a token: the epsilon marker and the
  nonterminals that the table can rewrite to nothing.
\<close>

definition vanishing :: "string list" where
  "vanishing =
    [EPSILON, ''Declarations'', ''DeclListP'', ''IdListP'', ''StmtList'', ''StmtListP'',
     ''Statement'', ''ElsePart'', ''ExprListP'', ''ExpressionP'', ''TermP'']"

text \<open>A rank for every nonterminal; every other symbol has rank 1.\<close>

definition rank_table :: "(string \<times> nat) list" where
  "rank_table =
    [(''Program'', 2), (''Block'', 4), (''Declarations'', 2), (''DeclList'', 4),
     (''DeclListP'', 4), (''Decl'', 3), (''IdList'', 2), (''IdListP'', 2), (''Type'', 2),
     (''StmtList'', 6), (''StmtListP'', 2), (''Statement'', 3), (''AssignStmt'', 1),
     (''IfStmt'', 2), (''ElsePart'', 2), (''WhileStmt'', 2), (''ReadStmt'', 2),
     (''WriteStmt'', 2), (''ExprList'', 5), (''ExprListP'', 2), (''BoolExpr'', 5),
     (''RelOp'', 2), (''Expression'', 4), (''ExpressionP'', 2), (''Term'', 3),
     (''TermP'', 2), (''Factor'', 2)]"

definition rank :: "string \<Rightarrow> nat" where
  "rank X = (case map_of rank_table X of Some n \<Rightarrow> n | None \<Rightarrow> 1)"

text \<open>
  The weight of a stack: the ranks of its symbols from the top down to the first one that
  cannot vanish.
\<close>

fun weight :: "string list \<Rightarrow> nat" where
  "weight [] = 0"
| "weight (X # r) = rank X + (if X \<in> set vanishing then weight r else 0)"

lemma weight_append:
  "weight (xs @ r) = weight xs + (if list_all (\<lambda>X. X \<in> set vanishing) xs then weight r else 0)"
  by (induction xs) auto

lemma rank_pos: "0 < rank X"
proof (cases "map_of rank_table X")
  case None
  then show ?thesis by (simp add: rank_def)
next
  case (Some n)
  then have "(X, n) \<in> set rank_table" by (rule map_of_SomeD)
  then have "0 < n" by (auto simp: rank_table_def)
  then show ?thesis using Some by (simp add: rank_def)
qed

definition grammar_symbol :: "string \<Rightarrow> bool" where
  "grammar_symbol X \<longleftrightarrow> is_terminal X \<or> is_nonterminal X"

lemma table_entries_ranked:
  "list_all (\<lambda>(A, t, rhs).
      if rhs = [EPSILON] then A \<in> set vanishing
      else weight rhs < rank A
        \<and> (list_all (\<lambda>X. X \<in> set vanishing) rhs \<longrightarrow> A \<in> set vanishing))
     table_entries"
  by (simp add: table_entries_def PARSE_TABLE_def vanishing_def rank_def rank_table_def
        EPSILON_def)

lemma table_entries_symbols:
  "list_all (\<lambda>(A, t, rhs). list_all (\<lambda>X. grammar_symbol X \<and> X \<noteq> ''$'') rhs) table_entries"
  by (simp add: table_entries_def PARSE_TABLE_def grammar_symbol_def is_terminal_def
        is_nonterminal_def TERMINALS_def NONTERMINALS_def EPSILON_def)



subsection \<open>Termination of parse\<close>

lemma make_children_length:
  "length (snd (make_children h n rhs acc)) = length acc + length rhs"
  by (induction rhs arbitrary: h acc) (auto simp: Let_def new_node_def split: prod.splits)

lemma zip_symbols:
  "length cs = length rhs \<Longrightarrow> map fst (zip rhs (map Some cs)) = rhs"
  by (simp add: map_fst_zip)

text \<open>
  What holds of the stack and the cursor all through the loop: the end marker lies at the
  bottom of the stack and nowhere else, every other entry is a grammar symbol, and the
  cursor stays inside the token list, which ends in the end-of-input token.
\<close>

definition stack_ok :: "(string \<times> nat option) list \<Rightarrow> bool" where
  "stack_ok stk \<longleftrightarrow>
     (\<exists>s. stk = s @ [(''$'', None)] \<and> list_all (\<lambda>X. grammar_symbol X \<and> X \<noteq> ''$'') (map fst s))"

definition input_ok :: "Token list \<Rightarrow> nat \<Rightarrow> bool" where
  "input_ok toks p \<longleftrightarrow> toks \<noteq> [] \<and> ttype (last toks) = EOF \<and> p < length toks"

text \<open>Each pass of the loop that goes on moves the cursor forward or makes the stack lighter.\<close>

definition parse_rel :: "Token list \<Rightarrow> (LL1Parser \<times> LL1Parser) set" where
  "parse_rel toks =
     inv_image (less_than <*lex*> less_than)
       (\<lambda>st. (length toks - ppos st, weight (map fst (stack st))))"

lemma wf_parse_rel: "wf (parse_rel toks)"
  unfolding parse_rel_def by (intro wf_inv_image wf_lex_prod wf_less_than)

lemma get_terminal_EOF: "ttype t = EOF \<Longrightarrow> get_terminal t = ''$''"
  by (simp add: get_terminal_def TOKEN_TO_TERMINAL_def)

lemma dollar_terminal: "is_terminal ''$'' \<and> ''$'' \<noteq> EPSILON"
  by (simp add: is_terminal_def TERMINALS_def EPSILON_def)

lemma epsilon_vanishing: "EPSILON \<in> set vanishing"
  by (simp add: vanishing_def)

lemma get_production_ranked:
  assumes "get_production A t = Some rhs"
  shows "if rhs = [EPSILON] then A \<in> set vanishing
         else weight rhs < rank A
           \<and> (list_all (\<lambda>X. X \<in> set vanishing) rhs \<longrightarrow> A \<in> set vanishing)"
  using get_production_entry [OF assms] table_entries_ranked
  by (auto simp: list_all_iff)

lemma get_production_symbols:
  assumes "get_production A t = Some rhs"
  shows "list_all (\<lambda>X. grammar_symbol X \<and> X \<noteq> ''$'') rhs"
  using get_production_entry [OF assms] table_entries_symbols
  by (auto simp: list_all_iff)

lemma expand_weight:
  assumes "get_production A t = Some rhs" and "rhs \<noteq> [EPSILON]"
  shows "weight (rhs @ r) < weight (A # r)"
proof -
  have a: "weight rhs < rank A"
    and b: "list_all (\<lambda>X. X \<in> set vanishing) rhs \<longrightarrow> A \<in> set vanishing"
    using get_production_ranked [OF assms(1)] assms(2) by auto
  show ?thesis using a b by (auto simp: weight_append)
qed


lemma parse_step_continue:
  assumes io: "input_ok toks (ppos st)" and so: "stack_ok (stack st)"
    and step: "parse_step toks st = Continue st'"
  shows "input_ok toks (ppos st') \<and> stack_ok (stack st') \<and> (st', st) \<in> parse_rel toks"
proof -
  obtain s where stk: "stack st = s @ [(''$'', None)]"
    and sym: "list_all (\<lambda>X. grammar_symbol X \<and> X \<noteq> ''$'') (map fst s)"
    using so unfolding stack_ok_def by blast
  have ne: "toks \<noteq> []" and eof: "ttype (last toks) = EOF" and lt: "ppos st < length toks"
    using io by (auto simp: input_ok_def)
  define cur where "cur = toks ! ppos st"
  define ct where "ct = get_terminal cur"
  have cur: "current_token toks (ppos st) = Inr cur"
    using lt by (simp add: current_token_def cur_def)
  show ?thesis
  proof (cases s)
    case Nil
    then have "stack st = [(''$'', None)]" using stk by simp
    then have False using step cur dollar_terminal
      by (auto simp: parse_step_def Let_def split: if_splits)
    then show ?thesis ..
  next
    case (Cons top s')
    obtain X n where top: "top = (X, n)" by (cases top)
    have st: "stack st = (X, n) # s' @ [(''$'', None)]" using stk Cons top by simp
    have X: "grammar_symbol X" "X \<noteq> ''$''" and sym': "list_all (\<lambda>X. grammar_symbol X \<and> X \<noteq> ''$'') (map fst s')"
      using sym Cons top by auto
    have ok_rest: "stack_ok (s' @ [(''$'', None)])"
      using sym' unfolding stack_ok_def by blast
    let ?rest = "s' @ [(''$'', None)]"
    consider (terminal) "is_terminal X" "X \<noteq> EPSILON"
      | (eps) "X = EPSILON"
      | (nonterm) "\<not> is_terminal X" "is_nonterminal X"
      using X(1) unfolding grammar_symbol_def by blast
    then show ?thesis
    proof cases
      case terminal
      have m: "X = ct" and st': "st' = \<lparr>ppos = padvance toks (ppos st), stack = ?rest,
            pstore = (case n of Some a \<Rightarrow> set_value (pstore st) a (tvalue cur) | None \<Rightarrow> pstore st)\<rparr>"
        using step st cur terminal X(2)
        by (auto simp: parse_step_def Let_def ct_def split: if_splits)
      have "ppos st \<noteq> length toks - 1"
      proof
        assume "ppos st = length toks - 1"
        then have "cur = last toks" using ne by (simp add: cur_def last_conv_nth)
        then have "ct = ''$''" using eof get_terminal_EOF by (simp add: ct_def)
        then show False using m X(2) by simp
      qed
      then have adv: "padvance toks (ppos st) = ppos st + 1" "ppos st + 1 < length toks"
        using lt by (auto simp: padvance_def)
      have "length toks - (ppos st + 1) < length toks - ppos st" using adv by arith
      then show ?thesis
        using st' adv ne eof ok_rest
        by (simp add: input_ok_def parse_rel_def)
    next
      case eps
      have st': "st' = \<lparr>ppos = ppos st, stack = ?rest,
            pstore = add_epsilon_child (pstore st) n\<rparr>"
        using step st cur eps
        by (auto simp: parse_step_def Let_def EPSILON_def split: if_splits)
      show ?thesis
        using st' io ok_rest st eps epsilon_vanishing rank_pos [of EPSILON]
        by (simp add: parse_rel_def)
    next
      case nonterm
      have nd: "X \<noteq> EPSILON" using nonterm(1) by (auto simp: is_terminal_def)
      obtain rhs where gp: "get_production X ct = Some rhs"
        using step st cur nonterm nd X(2)
        by (auto simp: parse_step_def Let_def ct_def split: if_splits option.splits)
      show ?thesis
      proof (cases "rhs = [EPSILON]")
        case True
        have st': "st' = \<lparr>ppos = ppos st, stack = ?rest,
            pstore = add_epsilon_child (pstore st) n\<rparr>"
          using step st cur nonterm nd X(2) gp True
          by (auto simp: parse_step_def Let_def ct_def split: if_splits)
        have "X \<in> set vanishing" using get_production_ranked [OF gp] True by simp
        then show ?thesis
          using st' io ok_rest st rank_pos [of X]
          by (simp add: parse_rel_def)
      next
        case False
        obtain h cs where mc: "make_children (pstore st) n rhs [] = (h, cs)"
          by (cases "make_children (pstore st) n rhs []")
        have len: "length cs = length rhs"
          using make_children_length [of "pstore st" n rhs "[]"] mc by simp
        have st': "st' = \<lparr>ppos = ppos st, stack = zip rhs (map Some cs) @ ?rest, pstore = h\<rparr>"
          using step st cur nonterm nd X(2) gp False mc
          by (auto simp: parse_step_def Let_def ct_def split: if_splits)
        have syms: "map fst (stack st') = rhs @ map fst ?rest"
          using st' zip_symbols [OF len] by simp
        have w: "weight (map fst (stack st')) < weight (map fst (stack st))"
          using expand_weight [OF gp False, of "map fst ?rest"] syms st by simp
        have "list_all (\<lambda>X. grammar_symbol X \<and> X \<noteq> ''$'') (map fst (zip rhs (map Some cs) @ s'))"
          using get_production_symbols [OF gp] sym' zip_symbols [OF len] by simp
        then have "stack_ok (stack st')"
          unfolding stack_ok_def using st' by (intro exI [of _ "zip rhs (map Some cs) @ s'"]) simp
        then show ?thesis
          using st' io w by (simp add: parse_rel_def)
      qed
    qed
  qed
qed


text \<open>The two errors that the body of the loop raises: a mismatch and a missing production.\<close>

definition loop_error :: "Token list \<Rightarrow> exception \<Rightarrow> bool" where
  "loop_error toks e \<longleftrightarrow>
     (\<exists>X tok. tok \<in> set toks \<and>
        (e = Parser_Error \<lparr>pmessage = expected_message X (tvalue tok), ptoken = Some tok\<rparr>
         \<or> e = Parser_Error \<lparr>pmessage = no_production_message X (get_terminal tok),
                               ptoken = Some tok\<rparr>))"

lemma parse_step_raise:
  assumes io: "input_ok toks (ppos st)" and so: "stack_ok (stack st)"
    and step: "parse_step toks st = Raise e"
  shows "loop_error toks e"
proof -
  obtain s where stk: "stack st = s @ [(''$'', None)]"
    using so unfolding stack_ok_def by blast
  have lt: "ppos st < length toks" using io by (auto simp: input_ok_def)
  define cur where "cur = toks ! ppos st"
  have cur: "current_token toks (ppos st) = Inr cur"
    using lt by (simp add: current_token_def cur_def)
  have mem: "cur \<in> set toks" using lt by (simp add: cur_def)
  obtain X n rest where st: "stack st = (X, n) # rest"
    using stk by (cases s) auto
  have "e = Parser_Error \<lparr>pmessage = expected_message X (tvalue cur), ptoken = Some cur\<rparr>
      \<or> e = Parser_Error \<lparr>pmessage = no_production_message X (get_terminal cur),
                            ptoken = Some cur\<rparr>"
    using step st cur
    by (auto simp: parse_step_def Let_def split: if_splits option.splits prod.splits)
  then show ?thesis using mem unfolding loop_error_def by blast
qed

definition loop_result :: "Token list \<Rightarrow> (exception + bool \<times> ParseTree option) \<Rightarrow> bool" where
  "loop_result toks r \<longleftrightarrow>
     (\<exists>tree. r = Inr (True, Some tree)) \<or> (\<exists>e. r = Inl e \<and> loop_error toks e)"

lemma parse_loop_terminates:
  assumes "input_ok toks (ppos st)" and "stack_ok (stack st)"
  shows "\<exists>r. parse_loop toks st = Some r \<and> loop_result toks r"
  using assms
proof (induction st rule: wf_induct_rule [OF wf_parse_rel [of toks]])
  case (1 st)
  have ne: "length (stack st) > 0" using "1.prems"(2) by (auto simp: stack_ok_def)
  show ?case
  proof (cases "parse_step toks st")
    case (Accept tree)
    then show ?thesis using ne
      by (subst parse_loop.simps) (simp add: loop_result_def)
  next
    case (Raise e)
    then show ?thesis using ne parse_step_raise [OF "1.prems" Raise]
      by (subst parse_loop.simps) (simp add: loop_result_def)
  next
    case (Continue st')
    have "input_ok toks (ppos st')" "stack_ok (stack st')" "(st', st) \<in> parse_rel toks"
      using parse_step_continue [OF "1.prems" Continue] by auto
    then have "\<exists>r. parse_loop toks st' = Some r \<and> loop_result toks r"
      using "1.IH" by blast
    then show ?thesis using ne Continue
      by (subst parse_loop.simps) simp
  qed
qed

lemma parse_init_ok:
  "stack_ok (stack parse_init) \<and> ppos parse_init = 0"
proof -
  have "grammar_symbol ''Program'' \<and> ''Program'' \<noteq> ''$''"
    by (simp add: grammar_symbol_def is_nonterminal_def NONTERMINALS_def)
  then show ?thesis
    unfolding stack_ok_def parse_init_def
    by (auto intro!: exI [of _ "[(''Program'', Some 0)]"])
qed






subsection \<open>An accepted program\<close>

text \<open>The text \<open>program t; begin end.\<close>, its tokens and the tree that \<^verbatim>\<open>parse\<close> builds.\<close>

definition empty_program_tokens :: "Token list" where
  "empty_program_tokens =
    [\<lparr>ttype = PROGRAM, tvalue = ''program'', tline = 1, tcolumn = 1\<rparr>,
     \<lparr>ttype = ID, tvalue = ''t'', tline = 1, tcolumn = 9\<rparr>,
     \<lparr>ttype = SEMICOLON, tvalue = '';'', tline = 1, tcolumn = 10\<rparr>,
     \<lparr>ttype = BEGIN, tvalue = ''begin'', tline = 1, tcolumn = 12\<rparr>,
     \<lparr>ttype = END, tvalue = ''end'', tline = 1, tcolumn = 18\<rparr>,
     \<lparr>ttype = DOT, tvalue = ''.'', tline = 1, tcolumn = 21\<rparr>,
     \<lparr>ttype = EOF, tvalue = ''$'', tline = 1, tcolumn = 22\<rparr>]"

definition empty_program_tree :: ParseTree where
  "empty_program_tree =
    \<lparr>root = Some 0,
     nodes =
       [\<lparr>symbol = ''Program'', nvalue = [], children = [1, 2, 3, 4, 5]\<rparr>,
        \<lparr>symbol = ''program'', nvalue = ''program'', children = []\<rparr>,
        \<lparr>symbol = ''id'', nvalue = ''t'', children = []\<rparr>,
        \<lparr>symbol = '';'', nvalue = '';'', children = []\<rparr>,
        \<lparr>symbol = ''Block'', nvalue = [], children = [6, 7, 8, 9]\<rparr>,
        \<lparr>symbol = ''.'', nvalue = ''.'', children = []\<rparr>,
        \<lparr>symbol = ''Declarations'', nvalue = [], children = [10]\<rparr>,
        \<lparr>symbol = ''begin'', nvalue = ''begin'', children = []\<rparr>,
        \<lparr>symbol = ''StmtList'', nvalue = [], children = [11, 12]\<rparr>,
        \<lparr>symbol = ''end'', nvalue = ''end'', children = []\<rparr>,
        \<lparr>symbol = EPSILON, nvalue = [], children = []\<rparr>,
        \<lparr>symbol = ''Statement'', nvalue = [], children = [13]\<rparr>,
        \<lparr>symbol = ''StmtListP'', nvalue = [], children = [14]\<rparr>,
        \<lparr>symbol = EPSILON, nvalue = [], children = []\<rparr>,
        \<lparr>symbol = EPSILON, nvalue = [], children = []\<rparr>]\<rparr>"

lemma tokenize_empty_program:
  "tokenize ''program t; begin end.'' = Inr empty_program_tokens"
  by (simp add: lex_eval empty_program_tokens_def)

lemma parse_empty_program:
  "parse empty_program_tokens = Some (Inr (True, Some empty_program_tree))"
  by (simp add: empty_program_tokens_def empty_program_tree_def parse_eval)


subsection \<open>parse_string\<close>

lemma tokenize_ends_in_EOF:
  assumes "tokenize src = Inr toks"
  shows "toks \<noteq> [] \<and> ttype (last toks) = EOF"
  using assms by (auto simp: tokenize_def tokenize_rest_def split: sum.splits)


text \<open>
  Claim C10.  Whenever the lexer raises its error, and whenever the parser raises a
  \<^verbatim>\<open>ParserError\<close>, \<^verbatim>\<open>parse_string\<close> returns exactly \<open>(False, None)\<close>.  A tree comes
  back only with \<open>True\<close>.  On every text \<^verbatim>\<open>parse_string\<close> returns one of the two:
  \<open>(False, None)\<close>, or \<open>(True, tree)\<close> with the tree that \<^verbatim>\<open>parse\<close> accepted.
\<close>

theorem parse_string_no_partial_tree:
  "(tokenize src = Inl le \<longrightarrow> parse_string src = Some (Inr (False, None)))
   \<and> (tokenize src = Inr toks \<and> parse toks = Some (Inl (Parser_Error pe))
        \<longrightarrow> parse_string src = Some (Inr (False, None)))
   \<and> (parse_string src = Some (Inr (b, Some tree)) \<longrightarrow> b)
   \<and> (parse_string src = Some (Inr (False, None))
        \<or> (\<exists>ts t. tokenize src = Inr ts \<and> parse ts = Some (Inr (True, Some t))
               \<and> parse_string src = Some (Inr (True, Some t))))"
proof -
  have total: "parse_string src = Some (Inr (False, None))
        \<or> (\<exists>ts t. tokenize src = Inr ts \<and> parse ts = Some (Inr (True, Some t))
               \<and> parse_string src = Some (Inr (True, Some t)))"
  proof (cases "tokenize src")
    case (Inl e)
    then show ?thesis by (simp add: parse_string_def)
  next
    case (Inr ts)
    then have "ts \<noteq> []" "ttype (last ts) = EOF" using tokenize_ends_in_EOF by blast+
    then obtain r where r: "parse ts = Some r"
      and g: "(\<exists>t. r = Inr (True, Some t)) \<or> (\<exists>e. r = Inl e \<and> loop_error ts e)"
      using parse_loop_terminates [of ts parse_init] parse_init_ok
      unfolding parse_def loop_result_def input_ok_def by auto
    from g show ?thesis
    proof
      assume "\<exists>t. r = Inr (True, Some t)"
      then show ?thesis using Inr r by (auto simp: parse_string_def)
    next
      assume "\<exists>e. r = Inl e \<and> loop_error ts e"
      then show ?thesis using Inr r by (auto simp: parse_string_def loop_error_def)
    qed
  qed
  then have "parse_string src = Some (Inr (b, Some tree)) \<longrightarrow> b" by auto
  then show ?thesis using total by (auto simp: parse_string_def)
qed

theorem parse_string_no_partial_tree_witness:
  "tokenize ''#'' = Inl \<lparr>lmessage = unexpected_character (CHR ''#''), lline = 1, lcolumn = 1\<rparr>
   \<and> parse_string ''#'' = Some (Inr (False, None))
   \<and> tokenize ''program t; begin x := end.'' = Inr missing_rhs_tokens
   \<and> parse missing_rhs_tokens =
       Some (Inl (Parser_Error
         \<lparr>pmessage = ''No production for [Expression, end]'',
          ptoken = Some \<lparr>ttype = END, tvalue = ''end'', tline = 1, tcolumn = 23\<rparr>\<rparr>))
   \<and> parse_string ''program t; begin x := end.'' = Some (Inr (False, None))
   \<and> parse_string ''program t; begin end.'' = Some (Inr (True, Some empty_program_tree))"
proof -
  have h1: "tokenize ''#'' = Inl \<lparr>lmessage = unexpected_character (CHR ''#''), lline = 1, lcolumn = 1\<rparr>"
    by (simp add: lex_eval)
  have c1: "parse_string ''#'' = Some (Inr (False, None))"
    using parse_string_no_partial_tree [of "''#''"] h1 by blast
  have h2: "tokenize ''program t; begin x := end.'' = Inr missing_rhs_tokens
      \<and> parse missing_rhs_tokens = Some (Inl (Parser_Error
         \<lparr>pmessage = ''No production for [Expression, end]'',
          ptoken = Some \<lparr>ttype = END, tvalue = ''end'', tline = 1, tcolumn = 23\<rparr>\<rparr>))"
    using tokenize_missing_rhs parse_missing_rhs by simp
  have c2: "parse_string ''program t; begin x := end.'' = Some (Inr (False, None))"
    using parse_string_no_partial_tree [of "''program t; begin x := end.''" _ missing_rhs_tokens] h2
    by blast
  have h3: "parse_string ''program t; begin end.'' = Some (Inr (True, Some empty_program_tree))"
    by (simp add: parse_string_def tokenize_empty_program parse_empty_program)
  show ?thesis using h1 c1 h2 c2 h3 by simp
qed


end
